theory Spec2Isabelle
  imports
    Complex_Main
    "HOL-Library.Char_ord"
    "HOL-Library.List_Lexorder"
    "HOL-Library.AList"
    "HOL-Library.Multiset"
begin

section \<open>Python strings and integers\<close>

text \<open>
  Python \<^verbatim>\<open>str\<close> values are modelled as \<^typ>\<open>string\<close>, restricted to ASCII text.
  Comparison of strings (used by \<^verbatim>\<open>sorted\<close>) is the lexicographic order of
  \<^verbatim>\<open>HOL-Library.List_Lexorder\<close> over the code-point order of
  \<^verbatim>\<open>HOL-Library.Char_ord\<close>.

  \<^verbatim>\<open>str.strip()\<close> removes leading and trailing whitespace; for ASCII text the
  whitespace characters are the codes 9 to 13 and 28 to 32.
\<close>

definition is_space :: "char \<Rightarrow> bool" where
  "is_space c = (let n = (of_char c :: nat) in (9 \<le> n \<and> n \<le> 13) \<or> (28 \<le> n \<and> n \<le> 32))"

definition strip :: "string \<Rightarrow> string" where
  "strip s = rev (dropWhile is_space (rev (dropWhile is_space s)))"

definition is_digit :: "char \<Rightarrow> bool" where
  "is_digit c = (let n = (of_char c :: nat) in 48 \<le> n \<and> n \<le> 57)"

definition upper_char :: "char \<Rightarrow> char" where
  "upper_char c = (let n = (of_char c :: nat) in if 97 \<le> n \<and> n \<le> 122 then char_of (n - 32) else c)"

definition upper :: "string \<Rightarrow> string" where
  "upper s = map upper_char s"

text \<open>\<^verbatim>\<open>s.split(sep)\<close> for a one-character separator: always at least one part.\<close>

fun split_on :: "char \<Rightarrow> string \<Rightarrow> string list" where
  "split_on sep [] = [[]]"
| "split_on sep (c # cs) =
     (if c = sep then [] # split_on sep cs
      else (case split_on sep cs of
              p # ps \<Rightarrow> (c # p) # ps
            | [] \<Rightarrow> [[c]]))"

text \<open>
  \<^verbatim>\<open>int(s)\<close> in base 10: surrounding whitespace is dropped, one sign is allowed,
  and the rest must be decimal digits, where single underscores may stand between
  digits. Anything else raises \<^verbatim>\<open>ValueError\<close>, here \<^term>\<open>None\<close>. For ASCII
  text the whitespace \<^verbatim>\<open>int\<close> drops is the codes 9 to 13 and 32 only: the codes 28
  to 31, which \<^verbatim>\<open>strip\<close> removes, make it raise.
\<close>

definition is_int_space :: "char \<Rightarrow> bool" where
  "is_int_space c = (let n = (of_char c :: nat) in (9 \<le> n \<and> n \<le> 13) \<or> n = 32)"

definition int_strip :: "string \<Rightarrow> string" where
  "int_strip s = rev (dropWhile is_int_space (rev (dropWhile is_int_space s)))"

fun valid_int_body :: "string \<Rightarrow> bool" where
  "valid_int_body [] = False"
| "valid_int_body [c] = is_digit c"
| "valid_int_body (c # d # cs) =
     (is_digit c \<and> (if d = CHR ''_'' then valid_int_body cs else valid_int_body (d # cs)))"

definition digits_value :: "string \<Rightarrow> nat" where
  "digits_value s = foldl (\<lambda>acc c. 10 * acc + (of_char c - 48)) 0 s"

definition py_int :: "string \<Rightarrow> int option" where
  "py_int s =
     (case int_strip s of
        [] \<Rightarrow> None
      | c # cs \<Rightarrow>
          (let (neg, body) =
                 (if c = CHR ''-'' then (True, cs)
                  else if c = CHR ''+'' then (False, cs)
                  else (False, c # cs))
           in if valid_int_body body
              then Some ((if neg then - 1 else 1) *
                         int (digits_value (filter (\<lambda>x. x \<noteq> CHR ''_'') body)))
              else None))"

text \<open>\<^verbatim>\<open>str(n)\<close> for an integer, and the format \<^verbatim>\<open>{n:02d}\<close> (zero padding to
  width two; a negative number already has width two with its sign).\<close>

definition digit_char :: "nat \<Rightarrow> char" where
  "digit_char d = ''0123456789'' ! d"

fun nat_str :: "nat \<Rightarrow> string" where
  "nat_str n = (if n < 10 then [digit_char n]
                else nat_str (n div 10) @ [digit_char (n mod 10)])"

declare nat_str.simps [simp del]

definition py_str_int :: "int \<Rightarrow> string" where
  "py_str_int i = (if i < 0 then CHR ''-'' # nat_str (nat (- i)) else nat_str (nat i))"

definition fmt_02d :: "int \<Rightarrow> string" where
  "fmt_02d i = (if 0 \<le> i \<and> i < 10 then CHR ''0'' # py_str_int i else py_str_int i)"

section \<open>The data model (validate.py)\<close>

text \<open>
  Rates are Python floats that the code only compares (\<^verbatim>\<open><\<close>, \<^verbatim>\<open>>=\<close>,
  \<^verbatim>\<open>!=\<close>) and copies; they are modelled as rationals, \<^verbatim>\<open>float | None\<close> as
  \<^typ>\<open>rat option\<close>. The values \<^verbatim>\<open>nan\<close> and \<^verbatim>\<open>inf\<close> are left out.

  Every entry of \<^verbatim>\<open>qa_flags\<close> is one of ten texts; each f-string is a constructor
  that carries the values the f-string interpolates:
  \<^verbatim>\<open>unknown_state_code: {code}\<close>,
  \<^verbatim>\<open>state_name_normalized: original='{raw}' canonical='{name}'\<close>,
  \<^verbatim>\<open>unparseable_date: '{month}'\<close>,
  \<^verbatim>\<open>date_corrected: original='{raw}' canonical='{month}'\<close>,
  \<^verbatim>\<open>missing_rate\<close>, \<^verbatim>\<open>implausible_rate: {rate}\<close>,
  \<^verbatim>\<open>rate_unusually_high: {rate}\<close>, \<^verbatim>\<open>missing_prev_month\<close>,
  \<^verbatim>\<open>rate_conflict: current={rate} vs prev_month={claimed} (from source row {idx})\<close>,
  \<^verbatim>\<open>prev_month_imputed: sourced from {prev}\<close>.
\<close>

datatype qa_flag =
    UnknownStateCode string
  | StateNameNormalized string string
  | UnparseableDate string
  | DateCorrected string string
  | MissingRate
  | ImplausibleRate rat
  | RateUnusuallyHigh rat
  | MissingPrevMonth
  | RateConflict rat rat int
  | PrevMonthImputed string

record ValidatedRow =
  state_canonical :: string
  state_code :: string
  month_canonical :: string
  unemployment_rate :: "rat option"
  unemployment_rate_prev_month :: "rat option"
  source :: string
  source_row_index :: int
  qa_flags :: "qa_flag list"
  is_publishable :: bool

text \<open>Exceptions the modelled code can raise.\<close>

datatype error = ValueError | ValidationError

definition IMPLAUSIBLE_RATE_LOWER_BOUND :: rat where
  "IMPLAUSIBLE_RATE_LOWER_BOUND = 0.0"

definition IMPLAUSIBLE_RATE_UPPER_BOUND :: rat where
  "IMPLAUSIBLE_RATE_UPPER_BOUND = 100.0"

definition RATE_WARNING_THRESHOLD :: rat where
  "RATE_WARNING_THRESHOLD = 15.0"

definition PUBLISH_GATE_THRESHOLD :: rat where
  "PUBLISH_GATE_THRESHOLD = 0.40"

definition TOTAL_STATES :: nat where
  "TOTAL_STATES = 50"

section \<open>Dates\<close>

text \<open>
  \<^verbatim>\<open>_DATE_PATTERN = re.compile(r"^(\d{4})[/-](\d{2})$")\<close>, applied with
  \<^verbatim>\<open>match\<close>: four digits, a slash or a hyphen, two digits; \<^verbatim>\<open>$\<close> also
  matches just before one final newline. The result is the two groups.
\<close>

definition date_pattern_match :: "string \<Rightarrow> (string \<times> string) option" where
  "date_pattern_match s =
     (let body = (if length s = 8 \<and> last s = CHR 0x0A then butlast s else s) in
      case body of
        [a, b, c, d, sep, e, f] \<Rightarrow>
          (if list_all is_digit [a, b, c, d] \<and> (sep = CHR ''/'' \<or> sep = CHR ''-'')
              \<and> list_all is_digit [e, f]
           then Some ([a, b, c, d], [e, f]) else None)
      | _ \<Rightarrow> None)"

definition normalize_date :: "string \<Rightarrow> string option" where
  "normalize_date raw =
     (case date_pattern_match (strip raw) of
        Some (g1, g2) \<Rightarrow> Some (g1 @ ''-'' @ g2)
      | None \<Rightarrow> None)"

text \<open>
  \<^verbatim>\<open>_prev_month\<close>: \<^verbatim>\<open>year, month = map(int, year_month.split("-"))\<close> raises
  \<^verbatim>\<open>ValueError\<close> unless there are exactly two parts and both are integers. The year
  is printed without padding.
\<close>

definition prev_month :: "string \<Rightarrow> error + string" where
  "prev_month year_month =
     (case map py_int (split_on CHR ''-'' year_month) of
        [Some year, Some month] \<Rightarrow>
          (let month1 = month - 1;
               (month2, year2) = (if month1 = 0 then (12, year - 1) else (month1, year))
           in Inr (py_str_int year2 @ ''-'' @ fmt_02d month2))
      | _ \<Rightarrow> Inl ValueError)"

section \<open>The state reference table (states.py)\<close>

record state_ref =
  name :: string
  usps_code :: string
  fips_code :: string
  census_region :: string
  census_division :: string

definition mk_state :: "string \<Rightarrow> string \<Rightarrow> string \<Rightarrow> string \<Rightarrow> string \<Rightarrow> state_ref" where
  "mk_state n c f r d =
     \<lparr>name = n, usps_code = c, fips_code = f, census_region = r, census_division = d\<rparr>"

definition STATES :: "state_ref list" where
  "STATES =
     [mk_state ''Alabama'' ''AL'' ''01'' ''South'' ''East South Central'',
      mk_state ''Alaska'' ''AK'' ''02'' ''West'' ''Pacific'',
      mk_state ''Arizona'' ''AZ'' ''04'' ''West'' ''Mountain'',
      mk_state ''Arkansas'' ''AR'' ''05'' ''South'' ''West South Central'',
      mk_state ''California'' ''CA'' ''06'' ''West'' ''Pacific'',
      mk_state ''Colorado'' ''CO'' ''08'' ''West'' ''Mountain'',
      mk_state ''Connecticut'' ''CT'' ''09'' ''Northeast'' ''New England'',
      mk_state ''Delaware'' ''DE'' ''10'' ''South'' ''South Atlantic'',
      mk_state ''Florida'' ''FL'' ''12'' ''South'' ''South Atlantic'',
      mk_state ''Georgia'' ''GA'' ''13'' ''South'' ''South Atlantic'',
      mk_state ''Hawaii'' ''HI'' ''15'' ''West'' ''Pacific'',
      mk_state ''Idaho'' ''ID'' ''16'' ''West'' ''Mountain'',
      mk_state ''Illinois'' ''IL'' ''17'' ''Midwest'' ''East North Central'',
      mk_state ''Indiana'' ''IN'' ''18'' ''Midwest'' ''East North Central'',
      mk_state ''Iowa'' ''IA'' ''19'' ''Midwest'' ''West North Central'',
      mk_state ''Kansas'' ''KS'' ''20'' ''Midwest'' ''West North Central'',
      mk_state ''Kentucky'' ''KY'' ''21'' ''South'' ''East South Central'',
      mk_state ''Louisiana'' ''LA'' ''22'' ''South'' ''West South Central'',
      mk_state ''Maine'' ''ME'' ''23'' ''Northeast'' ''New England'',
      mk_state ''Maryland'' ''MD'' ''24'' ''South'' ''South Atlantic'',
      mk_state ''Massachusetts'' ''MA'' ''25'' ''Northeast'' ''New England'',
      mk_state ''Michigan'' ''MI'' ''26'' ''Midwest'' ''East North Central'',
      mk_state ''Minnesota'' ''MN'' ''27'' ''Midwest'' ''West North Central'',
      mk_state ''Mississippi'' ''MS'' ''28'' ''South'' ''East South Central'',
      mk_state ''Missouri'' ''MO'' ''29'' ''Midwest'' ''West North Central'',
      mk_state ''Montana'' ''MT'' ''30'' ''West'' ''Mountain'',
      mk_state ''Nebraska'' ''NE'' ''31'' ''Midwest'' ''West North Central'',
      mk_state ''Nevada'' ''NV'' ''32'' ''West'' ''Mountain'',
      mk_state ''New Hampshire'' ''NH'' ''33'' ''Northeast'' ''New England'',
      mk_state ''New Jersey'' ''NJ'' ''34'' ''Northeast'' ''Middle Atlantic'',
      mk_state ''New Mexico'' ''NM'' ''35'' ''West'' ''Mountain'',
      mk_state ''New York'' ''NY'' ''36'' ''Northeast'' ''Middle Atlantic'',
      mk_state ''North Carolina'' ''NC'' ''37'' ''South'' ''South Atlantic'',
      mk_state ''North Dakota'' ''ND'' ''38'' ''Midwest'' ''West North Central'',
      mk_state ''Ohio'' ''OH'' ''39'' ''Midwest'' ''East North Central'',
      mk_state ''Oklahoma'' ''OK'' ''40'' ''South'' ''West South Central'',
      mk_state ''Oregon'' ''OR'' ''41'' ''West'' ''Pacific'',
      mk_state ''Pennsylvania'' ''PA'' ''42'' ''Northeast'' ''Middle Atlantic'',
      mk_state ''Rhode Island'' ''RI'' ''44'' ''Northeast'' ''New England'',
      mk_state ''South Carolina'' ''SC'' ''45'' ''South'' ''South Atlantic'',
      mk_state ''South Dakota'' ''SD'' ''46'' ''Midwest'' ''West North Central'',
      mk_state ''Tennessee'' ''TN'' ''47'' ''South'' ''East South Central'',
      mk_state ''Texas'' ''TX'' ''48'' ''South'' ''West South Central'',
      mk_state ''Utah'' ''UT'' ''49'' ''West'' ''Mountain'',
      mk_state ''Vermont'' ''VT'' ''50'' ''Northeast'' ''New England'',
      mk_state ''Virginia'' ''VA'' ''51'' ''South'' ''South Atlantic'',
      mk_state ''Washington'' ''WA'' ''53'' ''West'' ''Pacific'',
      mk_state ''West Virginia'' ''WV'' ''54'' ''South'' ''South Atlantic'',
      mk_state ''Wisconsin'' ''WI'' ''55'' ''Midwest'' ''East North Central'',
      mk_state ''Wyoming'' ''WY'' ''56'' ''West'' ''Mountain'']"

text \<open>
  \<^verbatim>\<open>_BY_CODE = {s["usps_code"].upper(): s for s in STATES}\<close>: a later entry would
  replace an earlier one with the same key.
\<close>

definition BY_CODE :: "string \<rightharpoonup> state_ref" where
  "BY_CODE = map_of (rev (map (\<lambda>s. (upper (usps_code s), s)) STATES))"

definition get_state_by_code :: "string \<Rightarrow> state_ref option" where
  "get_state_by_code code = BY_CODE (upper code)"

section \<open>Row validation (validate.py)\<close>

text \<open>
  A raw record is a dictionary from header names to cell values. A cell value is
  represented by what the code and the \<^verbatim>\<open>RawRow\<close> model can observe of it:
  \<^item> \<open>CNone\<close>: \<^verbatim>\<open>None\<close>, an empty cell;
  \<^item> \<open>CStr s\<close>: a \<^verbatim>\<open>str\<close> that is not the text of a number;
  \<^item> \<open>CNumStr s r\<close>: a \<^verbatim>\<open>str\<close> with text \<open>s\<close> that a \<^verbatim>\<open>float\<close> field of a
    non-strict model reads as the number \<open>r\<close>;
  \<^item> \<open>CNum r s\<close>: an \<^verbatim>\<open>int\<close>, \<^verbatim>\<open>float\<close> or \<^verbatim>\<open>bool\<close> with value \<open>r\<close>,
    whose \<^verbatim>\<open>str()\<close> is \<open>s\<close>;
  \<^item> \<open>CObj s\<close>: any other object (a \<^verbatim>\<open>datetime\<close>, say), whose \<^verbatim>\<open>str()\<close> is
    \<open>s\<close>.
\<close>

datatype cell =
    CNone
  | CStr string
  | CNumStr string rat
  | CNum rat string
  | CObj string

type_synonym raw_dict = "string \<rightharpoonup> cell"

definition is_str :: "cell \<Rightarrow> bool" where
  "is_str c = (case c of CStr _ \<Rightarrow> True | CNumStr _ _ \<Rightarrow> True | _ \<Rightarrow> False)"

definition py_str :: "cell \<Rightarrow> string" where
  "py_str c =
     (case c of
        CNone \<Rightarrow> ''None''
      | CStr s \<Rightarrow> s
      | CNumStr s _ \<Rightarrow> s
      | CNum _ s \<Rightarrow> s
      | CObj s \<Rightarrow> s)"

text \<open>
  \<^verbatim>\<open>RawRow\<close> (\<^verbatim>\<open>strict=False\<close>): \<^verbatim>\<open>state\<close>, \<^verbatim>\<open>state_code\<close>,
  \<^verbatim>\<open>month\<close> and \<^verbatim>\<open>source\<close> are required \<^verbatim>\<open>str\<close> fields, the two rates are
  \<^verbatim>\<open>float | None\<close> with default \<^verbatim>\<open>None\<close>; keys that are no fields are ignored.
  A \<^verbatim>\<open>str\<close> field takes a \<^verbatim>\<open>str\<close> only; a \<^verbatim>\<open>float | None\<close> field takes
  \<^verbatim>\<open>None\<close>, a number, or the text of a number.
\<close>

record RawRow =
  raw_state :: string
  raw_state_code :: string
  raw_month :: string
  raw_unemployment_rate :: "rat option"
  raw_unemployment_rate_prev_month :: "rat option"
  raw_source :: string

definition coerce_str :: "cell option \<Rightarrow> string option" where
  "coerce_str c =
     (case c of
        Some (CStr s) \<Rightarrow> Some s
      | Some (CNumStr s _) \<Rightarrow> Some s
      | _ \<Rightarrow> None)"

definition coerce_opt_float :: "cell option \<Rightarrow> rat option option" where
  "coerce_opt_float c =
     (case c of
        None \<Rightarrow> Some None
      | Some CNone \<Rightarrow> Some None
      | Some (CNum r _) \<Rightarrow> Some (Some r)
      | Some (CNumStr _ r) \<Rightarrow> Some (Some r)
      | _ \<Rightarrow> None)"

text \<open>
  Before \<^verbatim>\<open>RawRow(**raw_dict)\<close> the code replaces a month that is present and not
  \<^verbatim>\<open>None\<close> by \<^verbatim>\<open>str(raw_dict["month"]).strip()\<close>, which the \<^verbatim>\<open>str\<close> field then
  takes; a month that is absent or \<^verbatim>\<open>None\<close> fails the validation.
\<close>

definition coerce_month :: "cell option \<Rightarrow> string option" where
  "coerce_month c =
     (case c of
        None \<Rightarrow> None
      | Some CNone \<Rightarrow> None
      | Some v \<Rightarrow> Some (strip (py_str v)))"

definition RawRow_of :: "raw_dict \<Rightarrow> RawRow option" where
  "RawRow_of raw_dict =
     (case (coerce_str (raw_dict ''state''), coerce_str (raw_dict ''state_code''),
            coerce_month (raw_dict ''month''),
            coerce_opt_float (raw_dict ''unemployment_rate''),
            coerce_opt_float (raw_dict ''unemployment_rate_prev_month''),
            coerce_str (raw_dict ''source'')) of
        (Some st, Some code, Some month, Some rate, Some prev, Some src) \<Rightarrow>
          Some \<lparr>raw_state = st, raw_state_code = code, raw_month = month,
                raw_unemployment_rate = rate, raw_unemployment_rate_prev_month = prev,
                raw_source = src\<rparr>
      | _ \<Rightarrow> None)"

text \<open>
  The four checks of \<^verbatim>\<open>_validate_row\<close>, each returning what it appends to
  \<^verbatim>\<open>flags\<close> and whether it leaves \<^verbatim>\<open>publishable\<close> alone (true) or sets it to
  false.
\<close>

definition state_resolution :: "RawRow \<Rightarrow> qa_flag list \<times> bool \<times> string" where
  "state_resolution raw =
     (let code_upper = upper (strip (raw_state_code raw)) in
      case get_state_by_code code_upper of
        None \<Rightarrow> ([UnknownStateCode code_upper], False, strip (raw_state raw))
      | Some state_ref \<Rightarrow>
          (if strip (raw_state raw) \<noteq> name state_ref
           then [StateNameNormalized (strip (raw_state raw)) (name state_ref)]
           else [],
           True, name state_ref))"

definition date_normalization :: "RawRow \<Rightarrow> qa_flag list \<times> bool \<times> string" where
  "date_normalization raw =
     (case normalize_date (raw_month raw) of
        None \<Rightarrow> ([UnparseableDate (raw_month raw)], False, raw_month raw)
      | Some month_canon \<Rightarrow>
          (if strip (raw_month raw) \<noteq> month_canon
           then [DateCorrected (strip (raw_month raw)) month_canon]
           else [],
           True, month_canon))"

definition rate_plausibility :: "RawRow \<Rightarrow> qa_flag list \<times> bool" where
  "rate_plausibility raw =
     (case raw_unemployment_rate raw of
        None \<Rightarrow> ([MissingRate], False)
      | Some rate \<Rightarrow>
          if rate < IMPLAUSIBLE_RATE_LOWER_BOUND \<or> rate \<ge> IMPLAUSIBLE_RATE_UPPER_BOUND
          then ([ImplausibleRate rate], False)
          else if rate \<ge> RATE_WARNING_THRESHOLD
          then ([RateUnusuallyHigh rate], True)
          else ([], True))"

definition null_prev_month :: "RawRow \<Rightarrow> qa_flag list" where
  "null_prev_month raw =
     (if raw_unemployment_rate_prev_month raw = None then [MissingPrevMonth] else [])"

definition validate_raw :: "RawRow \<Rightarrow> int \<Rightarrow> ValidatedRow" where
  "validate_raw raw row_index =
     (let (state_flags, state_ok, canonical_name) = state_resolution raw;
          (date_flags, date_ok, month_canon) = date_normalization raw;
          (rate_flags, rate_ok) = rate_plausibility raw
      in \<lparr>state_canonical = canonical_name,
          state_code = upper (strip (raw_state_code raw)),
          month_canonical = month_canon,
          unemployment_rate = raw_unemployment_rate raw,
          unemployment_rate_prev_month = raw_unemployment_rate_prev_month raw,
          source = raw_source raw,
          source_row_index = row_index,
          qa_flags = state_flags @ date_flags @ rate_flags @ null_prev_month raw,
          is_publishable = (state_ok \<and> date_ok \<and> rate_ok)\<rparr>)"

text \<open>\<^verbatim>\<open>_validate_row\<close>: \<^term>\<open>None\<close> when \<^verbatim>\<open>RawRow(**raw_dict)\<close> raises.\<close>

definition validate_row :: "raw_dict \<Rightarrow> int \<Rightarrow> ValidatedRow option" where
  "validate_row raw_dict row_index =
     (case RawRow_of raw_dict of
        None \<Rightarrow> None
      | Some raw \<Rightarrow> Some (validate_raw raw row_index))"

section \<open>Cross-row reconciliation (validate.py)\<close>

text \<open>
  \<^verbatim>\<open>_check_rate_conflicts\<close> first fills
  \<^verbatim>\<open>prev_month_claims: dict[(state_code, month), list[(value, source_row_index)]]\<close>,
  a \<^verbatim>\<open>defaultdict(list)\<close>: a function whose default is the empty list. Only rows
  that are publishable and have a prior rate contribute; a \<^verbatim>\<open>ValueError\<close> of
  \<^verbatim>\<open>_prev_month\<close> skips the row.
\<close>

type_synonym claims = "string \<times> string \<Rightarrow> (rat \<times> int) list"

definition add_claim :: "claims \<Rightarrow> ValidatedRow \<Rightarrow> claims" where
  "add_claim prev_month_claims row =
     (if \<not> is_publishable row then prev_month_claims
      else case unemployment_rate_prev_month row of
        None \<Rightarrow> prev_month_claims
      | Some prev_rate \<Rightarrow>
          (case prev_month (month_canonical row) of
             Inl _ \<Rightarrow> prev_month_claims
           | Inr ref_month \<Rightarrow>
               prev_month_claims
                 ((state_code row, ref_month) :=
                    prev_month_claims (state_code row, ref_month)
                      @ [(prev_rate, source_row_index row)])))"

definition collect_claims :: "ValidatedRow list \<Rightarrow> claims" where
  "collect_claims validated = foldl add_claim (\<lambda>_. []) validated"

text \<open>
  The second loop visits every row once. What it does to a row depends on the finished
  claims dictionary and on that row alone, so the in-place mutation of the list is a
  \<^const>\<open>map\<close>. The inner \<^verbatim>\<open>for ... break\<close> acts on the first claim whose value
  differs from the row's current rate.
\<close>

definition check_row_conflict :: "claims \<Rightarrow> ValidatedRow \<Rightarrow> ValidatedRow" where
  "check_row_conflict prev_month_claims row =
     (if \<not> is_publishable row then row
      else case unemployment_rate row of
        None \<Rightarrow> row
      | Some rate \<Rightarrow>
          (case find (\<lambda>(claimed_value, claiming_row_idx). rate \<noteq> claimed_value)
                  (prev_month_claims (state_code row, month_canonical row)) of
             None \<Rightarrow> row
           | Some (claimed_value, claiming_row_idx) \<Rightarrow>
               row\<lparr>qa_flags := qa_flags row @ [RateConflict rate claimed_value claiming_row_idx],
                   is_publishable := False\<rparr>))"

definition check_rate_conflicts :: "ValidatedRow list \<Rightarrow> ValidatedRow list" where
  "check_rate_conflicts validated =
     map (check_row_conflict (collect_claims validated)) validated"

text \<open>
  \<^verbatim>\<open>_check_prev_month_imputed\<close>: the set \<^verbatim>\<open>will_have_value\<close> is filled by a
  first loop; the second loop appends the flag to publishable rows that carry
  \<^verbatim>\<open>missing_prev_month\<close>.
\<close>

definition add_will_have_value ::
  "(string \<times> string) set \<Rightarrow> ValidatedRow \<Rightarrow> (string \<times> string) set" where
  "add_will_have_value will_have row =
     (if \<not> is_publishable row then will_have
      else
        (let s1 = (if unemployment_rate row \<noteq> None
                   then insert (state_code row, month_canonical row) will_have
                   else will_have)
         in if unemployment_rate_prev_month row \<noteq> None
            then (case prev_month (month_canonical row) of
                    Inl _ \<Rightarrow> s1
                  | Inr prev \<Rightarrow> insert (state_code row, prev) s1)
            else s1))"

definition will_have_value :: "ValidatedRow list \<Rightarrow> (string \<times> string) set" where
  "will_have_value validated = foldl add_will_have_value {} validated"

definition flag_imputed :: "(string \<times> string) set \<Rightarrow> ValidatedRow \<Rightarrow> ValidatedRow" where
  "flag_imputed will_have row =
     (if \<not> is_publishable row \<or> MissingPrevMonth \<notin> set (qa_flags row) then row
      else case prev_month (month_canonical row) of
        Inl _ \<Rightarrow> row
      | Inr prev \<Rightarrow>
          (if (state_code row, prev) \<in> will_have
           then row\<lparr>qa_flags := qa_flags row @ [PrevMonthImputed prev]\<rparr>
           else row))"

definition check_prev_month_imputed :: "ValidatedRow list \<Rightarrow> ValidatedRow list" where
  "check_prev_month_imputed validated =
     map (flag_imputed (will_have_value validated)) validated"

section \<open>The publish gate (validate.py)\<close>

text \<open>
  \<^verbatim>\<open>state_rows\<close> is a \<^verbatim>\<open>defaultdict(list)\<close> filled in input order, here an
  association list in insertion order. The fraction is computed in floating point; the
  division is correctly rounded and so monotone, and \<^verbatim>\<open>20 / 50\<close> is the float
  \<^verbatim>\<open>0.4\<close>, hence the comparison agrees with the one over the rationals.
\<close>

definition add_state_row ::
  "(string \<times> ValidatedRow list) list \<Rightarrow> ValidatedRow \<Rightarrow> (string \<times> ValidatedRow list) list" where
  "add_state_row state_rows row =
     AList.map_default (state_code row) [row] (\<lambda>rows. rows @ [row]) state_rows"

definition group_by_state :: "ValidatedRow list \<Rightarrow> (string \<times> ValidatedRow list) list" where
  "group_by_state validated = foldl add_state_row [] validated"

definition fully_unpublishable :: "ValidatedRow list \<Rightarrow> nat" where
  "fully_unpublishable validated =
     length (filter (\<lambda>rows. list_all (\<lambda>r. \<not> is_publishable r) rows)
               (map snd (group_by_state validated)))"

definition check_publish_gate :: "ValidatedRow list \<Rightarrow> bool" where
  "check_publish_gate validated =
     (let fraction = (of_nat (fully_unpublishable validated) / of_nat TOTAL_STATES :: rat)
      in if fraction > PUBLISH_GATE_THRESHOLD then False else True)"

section \<open>The validation run (validate.py)\<close>

text \<open>
  The loop of \<^verbatim>\<open>run_validation\<close> over \<^verbatim>\<open>enumerate(raw_records, start=2)\<close>, and
  the two cross-row passes after it.
\<close>

fun validate_all :: "int \<Rightarrow> raw_dict list \<Rightarrow> ValidatedRow list" where
  "validate_all i [] = []"
| "validate_all i (rec # recs) =
     (case validate_row rec i of
        None \<Rightarrow> validate_all (i + 1) recs
      | Some result \<Rightarrow> result # validate_all (i + 1) recs)"

definition run_validation_rows :: "raw_dict list \<Rightarrow> ValidatedRow list" where
  "run_validation_rows raw_records =
     check_prev_month_imputed (check_rate_conflicts (validate_all 2 raw_records))"

section \<open>Deduplication and pivot (clean.py)\<close>

record CleanRow =
  clean_state_canonical :: string
  clean_state_code :: string
  clean_date :: string
  clean_value :: rat
  clean_source :: string
  clean_ingest_run :: string
  clean_source_row_index :: int

text \<open>\<^verbatim>\<open>_prev_month_date\<close>: as \<^verbatim>\<open>_prev_month\<close>, with the day appended. Its
  \<^verbatim>\<open>ValueError\<close> is not caught by the caller.\<close>

definition prev_month_date :: "string \<Rightarrow> error + string" where
  "prev_month_date year_month =
     (case map py_int (split_on CHR ''-'' year_month) of
        [Some year, Some month] \<Rightarrow>
          (let month1 = month - 1;
               (month2, year2) = (if month1 = 0 then (12, year - 1) else (month1, year))
           in Inr (py_str_int year2 @ ''-'' @ fmt_02d month2 @ ''-01''))
      | _ \<Rightarrow> Inl ValueError)"

text \<open>\<^verbatim>\<open>_dedupe\<close>: the first row of every key is kept, in input order.\<close>

fun dedupe_loop :: "('a \<Rightarrow> 'k) \<Rightarrow> 'k set \<Rightarrow> 'a list \<Rightarrow> 'a list" where
  "dedupe_loop key_of seen [] = []"
| "dedupe_loop key_of seen (row # rows) =
     (if key_of row \<in> seen then dedupe_loop key_of seen rows
      else row # dedupe_loop key_of (insert (key_of row) seen) rows)"

definition dedupe :: "('a \<Rightarrow> 'k) \<Rightarrow> 'a list \<Rightarrow> 'a list" where
  "dedupe key_of rows = dedupe_loop key_of {} rows"

definition dedupe_key :: "ValidatedRow \<Rightarrow> string \<times> string \<times> rat option \<times> rat option" where
  "dedupe_key r =
     (state_code r, month_canonical r, unemployment_rate r, unemployment_rate_prev_month r)"

text \<open>
  \<^verbatim>\<open>_pivot_row\<close>: the current-month point is built first; \<^verbatim>\<open>CleanRow.value\<close> is
  a \<^verbatim>\<open>float\<close>, so a row without a current rate raises a validation error. The
  prior-month point follows when the prior rate is present.
\<close>

definition pivot_row :: "ValidatedRow \<Rightarrow> string \<Rightarrow> error + CleanRow list" where
  "pivot_row row ingest =
     (case unemployment_rate row of
        None \<Rightarrow> Inl ValidationError
      | Some rate \<Rightarrow>
          (let current =
                 \<lparr>clean_state_canonical = state_canonical row,
                  clean_state_code = state_code row,
                  clean_date = month_canonical row @ ''-01'',
                  clean_value = rate,
                  clean_source = source row,
                  clean_ingest_run = ingest,
                  clean_source_row_index = source_row_index row\<rparr>
           in case unemployment_rate_prev_month row of
                None \<Rightarrow> Inr [current]
              | Some prev_rate \<Rightarrow>
                  (case prev_month_date (month_canonical row) of
                     Inl e \<Rightarrow> Inl e
                   | Inr prev_date \<Rightarrow>
                       Inr [current,
                            \<lparr>clean_state_canonical = state_canonical row,
                             clean_state_code = state_code row,
                             clean_date = prev_date,
                             clean_value = prev_rate,
                             clean_source = source row,
                             clean_ingest_run = ingest,
                             clean_source_row_index = source_row_index row\<rparr>])))"

text \<open>
  The pivot loop of \<^verbatim>\<open>run_clean\<close>. \<^verbatim>\<open>pivoted_lookup\<close> is a dictionary, which
  keeps its keys in insertion order and a key's place when its value is replaced: an
  association list with \<^const>\<open>AList.update\<close>. The loop state is the dictionary and the
  revision counter.
\<close>

type_synonym pivot_state = "((string \<times> string) \<times> CleanRow) list \<times> nat"

definition store_point :: "pivot_state \<Rightarrow> CleanRow \<Rightarrow> pivot_state" where
  "store_point st clean_row =
     (let (pivoted_lookup, revisions) = st;
          key = (clean_state_code clean_row, clean_date clean_row);
          revised = (case map_of pivoted_lookup key of
                       Some old \<Rightarrow> clean_value old \<noteq> clean_value clean_row
                     | None \<Rightarrow> False)
      in (AList.update key clean_row pivoted_lookup,
          if revised then revisions + 1 else revisions))"

fun pivot_loop :: "pivot_state \<Rightarrow> ValidatedRow list \<Rightarrow> string \<Rightarrow> error + pivot_state" where
  "pivot_loop st [] ingest = Inr st"
| "pivot_loop st (row # rows) ingest =
     (case pivot_row row ingest of
        Inl e \<Rightarrow> Inl e
      | Inr clean_rows \<Rightarrow> pivot_loop (foldl store_point st clean_rows) rows ingest)"

text \<open>\<^verbatim>\<open>sorted(deduped_validated, key=lambda r: r.month_canonical)\<close> is a stable sort,
  as \<^const>\<open>sort_key\<close> is; then the loop runs from the empty dictionary.\<close>

definition pivot :: "ValidatedRow list \<Rightarrow> string \<Rightarrow> error + pivot_state" where
  "pivot deduped_validated ingest =
     pivot_loop ([], 0) (sort_key month_canonical deduped_validated) ingest"

record clean_result =
  final_rows :: "CleanRow list"
  revisions_applied :: nat
  rows_deduped_input :: nat

text \<open>
  \<^verbatim>\<open>run_clean\<close> on rows passed in-process, up to the values it returns and records
  in the manifest; the time stamp \<^verbatim>\<open>ingest_run_ts\<close> is a parameter.
\<close>

definition run_clean :: "ValidatedRow list \<Rightarrow> string \<Rightarrow> error + clean_result" where
  "run_clean validated_rows ingest =
     (let publishable = filter is_publishable validated_rows;
          deduped_input = dedupe dedupe_key publishable
      in case pivot deduped_input ingest of
           Inl e \<Rightarrow> Inl e
         | Inr (pivoted_lookup, revisions) \<Rightarrow>
             Inr \<lparr>final_rows = map snd pivoted_lookup,
                  revisions_applied = revisions,
                  rows_deduped_input = length publishable - length deduped_input\<rparr>)"

section \<open>Notions used to state the properties\<close>

text \<open>
  Row \<open>b\<close> contradicts row \<open>a\<close>: \<open>b\<close> is publishable, is about the same state, its
  month minus one is the month of \<open>a\<close>, and its prior rate differs from the current
  rate of \<open>a\<close>.
\<close>

definition contradicts :: "ValidatedRow \<Rightarrow> ValidatedRow \<Rightarrow> bool" where
  "contradicts b a =
     (is_publishable b \<and> state_code b = state_code a
      \<and> prev_month (month_canonical b) = Inr (month_canonical a)
      \<and> (case (unemployment_rate_prev_month b, unemployment_rate a) of
            (Some claimed, Some rate) \<Rightarrow> rate \<noteq> claimed
          | _ \<Rightarrow> False))"

text \<open>
  The pair \<open>(s, m)\<close> will have a value after the pivot: \<open>m\<close> is the month of a
  publishable row of state \<open>s\<close> with a current rate, or the month before that of a
  publishable row of state \<open>s\<close> with a prior rate.
\<close>

definition covers :: "ValidatedRow \<Rightarrow> string \<Rightarrow> string \<Rightarrow> bool" where
  "covers r s m =
     (is_publishable r \<and> state_code r = s
      \<and> ((unemployment_rate r \<noteq> None \<and> month_canonical r = m)
         \<or> (unemployment_rate_prev_month r \<noteq> None \<and> prev_month (month_canonical r) = Inr m)))"

text \<open>The state codes all of whose rows are unpublishable.\<close>

definition fully_unpublishable_states :: "ValidatedRow list \<Rightarrow> string set" where
  "fully_unpublishable_states rows =
     {c \<in> state_code ` set rows. \<forall>r \<in> set rows. state_code r = c \<longrightarrow> \<not> is_publishable r}"

text \<open>What \<^verbatim>\<open>RawRow\<close> demands of the cells of a record: a \<^verbatim>\<open>str\<close>; a number, the
  text of a number, \<^verbatim>\<open>None\<close> or nothing; any value but \<^verbatim>\<open>None\<close>.\<close>

definition is_str_field :: "cell option \<Rightarrow> bool" where
  "is_str_field c = (case c of Some v \<Rightarrow> is_str v | None \<Rightarrow> False)"

definition is_number_or_null :: "cell option \<Rightarrow> bool" where
  "is_number_or_null c =
     (case c of
        None \<Rightarrow> True
      | Some CNone \<Rightarrow> True
      | Some (CNum _ _) \<Rightarrow> True
      | Some (CNumStr _ _) \<Rightarrow> True
      | _ \<Rightarrow> False)"

definition has_value :: "cell option \<Rightarrow> bool" where
  "has_value c = (case c of None \<Rightarrow> False | Some CNone \<Rightarrow> False | Some _ \<Rightarrow> True)"

text \<open>A row is ready for the pivot: if it is publishable, it has a current rate and
  \<^verbatim>\<open>_prev_month_date\<close> does not raise on its month.\<close>

definition ready :: "ValidatedRow \<Rightarrow> bool" where
  "ready r \<longleftrightarrow>
     (is_publishable r \<longrightarrow>
        unemployment_rate r \<noteq> None
        \<and> (\<exists>d. prev_month_date (month_canonical r) = Inr d))"

text \<open>The dictionary key of a long-format point, the point as (state code, date,
  value), and the points the rows of a list emit, in order.\<close>

definition point_key :: "CleanRow \<Rightarrow> string \<times> string" where
  "point_key c = (clean_state_code c, clean_date c)"

definition point_of :: "CleanRow \<Rightarrow> string \<times> string \<times> rat" where
  "point_of c = (clean_state_code c, clean_date c, clean_value c)"

definition points_of :: "ValidatedRow list \<Rightarrow> string \<Rightarrow> CleanRow list" where
  "points_of rows ingest =
     concat (map (\<lambda>r. case pivot_row r ingest of Inr cs \<Rightarrow> cs | Inl _ \<Rightarrow> []) rows)"

text \<open>
  The text \<^verbatim>\<open>f"{year}-{month:02d}"\<close> of a month, which for the years 1000 to 9999
  and the months 1 to 12 is its canonical \<^verbatim>\<open>YYYY-MM\<close> form (lemma
  \<open>month_str_canonical\<close>); the calendar months after and before it; and a row given a
  state code, a month and both rates, and marked publishable.
\<close>

definition month_str :: "int \<Rightarrow> int \<Rightarrow> string" where
  "month_str y m = py_str_int y @ ''-'' @ fmt_02d m"

definition month_after :: "int \<Rightarrow> int \<Rightarrow> string" where
  "month_after y m = (if m = 12 then month_str (y + 1) 1 else month_str y (m + 1))"

definition month_before :: "int \<Rightarrow> int \<Rightarrow> string" where
  "month_before y m = (if m = 1 then month_str (y - 1) 12 else month_str y (m - 1))"

definition with_rates ::
  "ValidatedRow \<Rightarrow> string \<Rightarrow> string \<Rightarrow> rat \<Rightarrow> rat \<Rightarrow> ValidatedRow" where
  "with_rates r code month rate prev =
     r\<lparr>state_code := code, month_canonical := month, unemployment_rate := Some rate,
       unemployment_rate_prev_month := Some prev, is_publishable := True\<rparr>"

section \<open>Examples\<close>

definition mk_row ::
  "string \<Rightarrow> string \<Rightarrow> rat option \<Rightarrow> rat option \<Rightarrow> int \<Rightarrow> qa_flag list \<Rightarrow> bool \<Rightarrow> ValidatedRow" where
  "mk_row code month rate prev idx flags pub =
     \<lparr>state_canonical = code, state_code = code, month_canonical = month,
      unemployment_rate = rate, unemployment_rate_prev_month = prev,
      source = ''BLS'', source_row_index = idx, qa_flags = flags, is_publishable = pub\<rparr>"

text \<open>Rhode Island's November rate is contradicted by December's prior rate; the
  Alabama row has no rates at all.\<close>

definition c4_rows :: "ValidatedRow list" where
  "c4_rows =
     [mk_row ''RI'' ''2025-11'' (Some 27.0) (Some 5.2) 2 [RateUnusuallyHigh 27.0] True,
      mk_row ''RI'' ''2025-12'' (Some 5.5) (Some 5.3) 3 [] True,
      mk_row ''AL'' ''2025-12'' None None 4 [MissingRate, MissingPrevMonth] False]"

text \<open>The first two rows of \<^const>\<open>c4_rows\<close>.\<close>

definition ri_rows :: "ValidatedRow list" where
  "ri_rows =
     [mk_row ''RI'' ''2025-11'' (Some 27.0) (Some 5.2) 2 [RateUnusuallyHigh 27.0] True,
      mk_row ''RI'' ''2025-12'' (Some 5.5) (Some 5.3) 3 [] True]"

text \<open>A chain of three months: November contradicts October, December contradicts
  November.\<close>

definition chain_rows :: "ValidatedRow list" where
  "chain_rows =
     [mk_row ''RI'' ''2025-10'' (Some 27.0) None 2 [RateUnusuallyHigh 27.0, MissingPrevMonth] True,
      mk_row ''RI'' ''2025-11'' (Some 5.0) (Some 5.3) 3 [] True,
      mk_row ''RI'' ''2025-12'' (Some 4.0) (Some 6.0) 4 [] True]"

text \<open>December has no rates and is unpublishable; November is published.\<close>

definition gap_rows :: "ValidatedRow list" where
  "gap_rows =
     [mk_row ''AL'' ''2025-11'' (Some 4.5) (Some 4.4) 2 [] True,
      mk_row ''AL'' ''2025-12'' None None 3 [MissingRate, MissingPrevMonth] False]"

text \<open>December lacks its prior rate and is publishable; November is published.\<close>

definition imputed_rows :: "ValidatedRow list" where
  "imputed_rows =
     [mk_row ''AL'' ''2025-11'' (Some 4.5) (Some 4.4) 2 [] True,
      mk_row ''AL'' ''2025-12'' (Some 4.6) None 3 [MissingPrevMonth] True]"

text \<open>
  Fifty states \<^verbatim>\<open>S00\<close> to \<^verbatim>\<open>S49\<close>, one December row each: the first \<open>n\<close>
  unpublishable, the others publishable; \<^verbatim>\<open>S49\<close> has two more rows, both
  unpublishable.
\<close>

definition gate_rows :: "nat \<Rightarrow> ValidatedRow list" where
  "gate_rows n =
     map (\<lambda>i. mk_row (''S'' @ fmt_02d (int i)) ''2025-12'' None None 0 [MissingRate] False) [0..<n]
     @ map (\<lambda>i. mk_row (''S'' @ fmt_02d (int i)) ''2025-12'' (Some 4.0) (Some 4.1) 0 [] True) [n..<50]
     @ [mk_row ''S49'' ''2025-11'' None None 0 [MissingRate] False,
        mk_row ''S49'' ''2025-10'' None None 0 [MissingRate] False]"

text \<open>An Alabama record with the given month and current rate cells, and the
  \<^verbatim>\<open>RawRow\<close> it gives for a month and rate.\<close>

definition al_record :: "cell \<Rightarrow> cell \<Rightarrow> raw_dict" where
  "al_record month rate =
     [''state'' \<mapsto> CStr ''Alabama'', ''state_code'' \<mapsto> CStr ''AL'', ''month'' \<mapsto> month,
      ''unemployment_rate'' \<mapsto> rate,
      ''unemployment_rate_prev_month'' \<mapsto> CNum 4.4 ''4.4'', ''source'' \<mapsto> CStr ''BLS'']"

definition al_raw :: "string \<Rightarrow> rat option \<Rightarrow> RawRow" where
  "al_raw month rate =
     \<lparr>raw_state = ''Alabama'', raw_state_code = ''AL'', raw_month = month,
      raw_unemployment_rate = rate, raw_unemployment_rate_prev_month = Some 4.4,
      raw_source = ''BLS''\<rparr>"

text \<open>A one-record batch, and the row the validation run makes of it.\<close>

definition al_records :: "raw_dict list" where
  "al_records = [al_record (CStr ''2025-12'') (CNum 4.5 ''4.5'')]"

definition al_validated :: ValidatedRow where
  "al_validated =
     \<lparr>state_canonical = ''Alabama'', state_code = ''AL'', month_canonical = ''2025-12'',
      unemployment_rate = Some 4.5, unemployment_rate_prev_month = Some 4.4,
      source = ''BLS'', source_row_index = 2, qa_flags = [], is_publishable = True\<rparr>"

text \<open>Two publishable December rows of one state with different rates; two December
  rows of different states; a long-format point of source \<^verbatim>\<open>BLS\<close>.\<close>

definition same_month_rows :: "ValidatedRow list" where
  "same_month_rows =
     [mk_row ''AL'' ''2025-12'' (Some 4.6) None 2 [MissingPrevMonth] True,
      mk_row ''AL'' ''2025-12'' (Some 4.7) None 3 [MissingPrevMonth] True]"

definition two_state_rows :: "ValidatedRow list" where
  "two_state_rows =
     [mk_row ''AL'' ''2025-12'' (Some 4.6) (Some 4.5) 2 [] True,
      mk_row ''AK'' ''2025-12'' (Some 5.8) (Some 5.6) 3 [] True]"

definition mk_point :: "string \<Rightarrow> string \<Rightarrow> rat \<Rightarrow> int \<Rightarrow> CleanRow" where
  "mk_point code date v idx =
     \<lparr>clean_state_canonical = code, clean_state_code = code, clean_date = date,
      clean_value = v, clean_source = ''BLS'', clean_ingest_run = ''ts'',
      clean_source_row_index = idx\<rparr>"

text \<open>Alabama's November row, and the December row that revises November.\<close>

definition nov_row :: ValidatedRow where
  "nov_row = mk_row ''AL'' ''2025-11'' (Some 10.0) (Some 9.0) 2 [] True"

definition dec_row :: ValidatedRow where
  "dec_row = mk_row ''AL'' ''2025-12'' (Some 4.6) (Some 5.0) 3 [] True"

text \<open>November and December of the year 999, written with four digits as the date
  pattern asks.\<close>

definition year_999_rows :: "ValidatedRow list" where
  "year_999_rows =
     [mk_row ''AL'' ''0999-11'' (Some 10.0) (Some 9.0) 2 [] True,
      mk_row ''AL'' ''0999-12'' (Some 4.6) (Some 5.0) 3 [] True]"

section \<open>Monotonicity of the verdict\<close>

lemma check_row_conflict_publishable:
  "is_publishable (check_row_conflict cl r) \<Longrightarrow> is_publishable r"
  by (auto simp: check_row_conflict_def split: option.splits if_splits)

lemma flag_imputed_publishable [simp]:
  "is_publishable (flag_imputed w r) = is_publishable r"
  by (auto simp: flag_imputed_def split: sum.splits)

lemma length_check_rate_conflicts [simp]:
  "length (check_rate_conflicts rows) = length rows"
  by (simp add: check_rate_conflicts_def)

lemma length_check_prev_month_imputed [simp]:
  "length (check_prev_month_imputed rows) = length rows"
  by (simp add: check_prev_month_imputed_def)

lemma check_rate_conflicts_publishable:
  "i < length rows \<Longrightarrow> is_publishable (check_rate_conflicts rows ! i)
     \<Longrightarrow> is_publishable (rows ! i)"
  by (auto simp: check_rate_conflicts_def dest: check_row_conflict_publishable)

lemma check_prev_month_imputed_publishable:
  "i < length rows \<Longrightarrow>
     is_publishable (check_prev_month_imputed rows ! i) = is_publishable (rows ! i)"
  by (simp add: check_prev_month_imputed_def)

text \<open>
  C4. Across \<^verbatim>\<open>_check_rate_conflicts\<close> followed by
  \<^verbatim>\<open>_check_prev_month_imputed\<close> the list keeps its length, and at every position
  the verdict can only go from true to false: a row that is publishable after either
  pass was publishable before it, and a row that was unpublishable before the two
  passes is unpublishable after them.
\<close>

theorem verdict_monotone:
  "length (check_prev_month_imputed (check_rate_conflicts rows)) = length rows \<and>
   (\<forall>i < length rows.
      (is_publishable (check_rate_conflicts rows ! i) \<longrightarrow> is_publishable (rows ! i)) \<and>
      (is_publishable (check_prev_month_imputed rows ! i) \<longrightarrow> is_publishable (rows ! i)) \<and>
      (\<not> is_publishable (rows ! i) \<longrightarrow>
         \<not> is_publishable (check_prev_month_imputed (check_rate_conflicts rows) ! i)))"
proof (intro conjI allI impI)
  show "length (check_prev_month_imputed (check_rate_conflicts rows)) = length rows"
    by simp
next
  fix i assume "i < length rows" "is_publishable (check_rate_conflicts rows ! i)"
  then show "is_publishable (rows ! i)"
    by (rule check_rate_conflicts_publishable)
next
  fix i assume "i < length rows" "is_publishable (check_prev_month_imputed rows ! i)"
  then show "is_publishable (rows ! i)"
    by (simp add: check_prev_month_imputed_publishable)
next
  fix i assume i: "i < length rows" and n: "\<not> is_publishable (rows ! i)"
  from i n have "\<not> is_publishable (check_rate_conflicts rows ! i)"
    using check_rate_conflicts_publishable by blast
  with i show "\<not> is_publishable (check_prev_month_imputed (check_rate_conflicts rows) ! i)"
    by (simp add: check_prev_month_imputed_publishable)
qed

theorem verdict_monotone_witness:
  "\<not> is_publishable (c4_rows ! 2) \<and>
   \<not> is_publishable (check_prev_month_imputed (check_rate_conflicts c4_rows) ! 2)"
proof -
  have len: "2 < length c4_rows" and n: "\<not> is_publishable (c4_rows ! 2)"
    by (simp_all add: c4_rows_def mk_row_def)
  from verdict_monotone [of c4_rows] len n show ?thesis
    by blast
qed

section \<open>The rate-conflict pass\<close>

lemma prev_month_2025_12: "prev_month ''2025-12'' = Inr ''2025-11''" by code_simp
lemma prev_month_2025_11: "prev_month ''2025-11'' = Inr ''2025-10''" by code_simp
lemma prev_month_2025_10: "prev_month ''2025-10'' = Inr ''2025-09''" by code_simp

lemma foldl_add_claim:
  "foldl add_claim c rows (s, m) =
     c (s, m) @ map (\<lambda>r. (the (unemployment_rate_prev_month r), source_row_index r))
       (filter (\<lambda>r. is_publishable r \<and> unemployment_rate_prev_month r \<noteq> None
                  \<and> state_code r = s \<and> prev_month (month_canonical r) = Inr m) rows)"
proof (induction rows arbitrary: c)
  case Nil
  show ?case by simp
next
  case (Cons r rows)
  show ?case
    by (simp add: Cons.IH) (auto simp: add_claim_def split: option.splits sum.splits)
qed

lemma collect_claims_eq:
  "collect_claims rows (s, m) =
     map (\<lambda>r. (the (unemployment_rate_prev_month r), source_row_index r))
       (filter (\<lambda>r. is_publishable r \<and> unemployment_rate_prev_month r \<noteq> None
                  \<and> state_code r = s \<and> prev_month (month_canonical r) = Inr m) rows)"
  by (simp add: collect_claims_def foldl_add_claim)

lemma find_map_filter:
  "find P (map f (filter Q xs)) = map_option f (find (\<lambda>x. Q x \<and> P (f x)) xs)"
  by (induction xs) auto

lemma check_row_conflict_eq:
  "check_row_conflict (collect_claims rows) a =
     (case find (\<lambda>b. contradicts b a) rows of
        None \<Rightarrow> a
      | Some b \<Rightarrow>
          if is_publishable a
          then a\<lparr>qa_flags := qa_flags a @
                    [RateConflict (the (unemployment_rate a))
                       (the (unemployment_rate_prev_month b)) (source_row_index b)],
                 is_publishable := False\<rparr>
          else a)"
proof (cases "is_publishable a")
  case False
  then show ?thesis
    by (simp add: check_row_conflict_def split: option.splits)
next
  case pub: True
  show ?thesis
  proof (cases "unemployment_rate a")
    case None
    then have "find (\<lambda>b. contradicts b a) rows = None"
      by (auto simp: find_None_iff contradicts_def split: option.splits)
    with None pub show ?thesis by (simp add: check_row_conflict_def)
  next
    case (Some v)
    have eq: "(\<lambda>x. (is_publishable x \<and> unemployment_rate_prev_month x \<noteq> None
                  \<and> state_code x = state_code a \<and> prev_month (month_canonical x) = Inr (month_canonical a))
               \<and> (case (the (unemployment_rate_prev_month x), source_row_index x) of (cv, idx) \<Rightarrow> v \<noteq> cv))
             = (\<lambda>b. contradicts b a)"
      using Some by (auto simp: contradicts_def fun_eq_iff split: option.splits)
    have fnd: "find (\<lambda>(claimed_value, claiming_row_idx). v \<noteq> claimed_value)
                 (collect_claims rows (state_code a, month_canonical a))
               = map_option (\<lambda>r. (the (unemployment_rate_prev_month r), source_row_index r))
                   (find (\<lambda>b. contradicts b a) rows)"
      by (simp only: collect_claims_eq find_map_filter eq)
    show ?thesis using pub Some
      by (simp add: check_row_conflict_def fnd split: option.splits)
  qed
qed


lemma check_rate_conflicts_nth:
  "i < length rows \<Longrightarrow>
     check_rate_conflicts rows ! i = check_row_conflict (collect_claims rows) (rows ! i)"
  by (simp add: check_rate_conflicts_def)

lemma contradicted_iff_claim:
  assumes "unemployment_rate a = Some v"
  shows "(\<exists>b \<in> set rows. contradicts b a) \<longleftrightarrow>
         (\<exists>c \<in> set (collect_claims rows (state_code a, month_canonical a)). fst c \<noteq> v)"
  using assms by (auto simp: collect_claims_eq contradicts_def split: option.splits)

text \<open>
  C3 (amended). Let row \<open>i\<close> be publishable with current rate \<open>v\<close>, and let the claims
  dictionary hold, under the row's own \<open>(state_code, month_canonical)\<close>, a claim whose
  value differs from \<open>v\<close>. Then after \<^verbatim>\<open>_check_rate_conflicts\<close> the row is
  unpublishable and its flags are the old ones followed by exactly one
  \<^verbatim>\<open>rate_conflict\<close> flag, the one for the first differing claim of that entry.
  Every row that no row of the list contradicts, a claiming row among them, is left as it
  was. (A claiming row that a third row contradicts is flagged in turn, see the
  counterexample.) Lemma \<open>collect_claims_eq\<close> says what the dictionary holds.
\<close>

theorem rate_conflict_pass:
  assumes i: "i < length rows"
    and pub: "is_publishable (rows ! i)"
    and rate: "unemployment_rate (rows ! i) = Some v"
    and claim: "(claimed0, idx0) \<in>
                  set (collect_claims rows (state_code (rows ! i), month_canonical (rows ! i)))"
    and differs: "claimed0 \<noteq> v"
  shows "(\<exists>claimed idx.
            find (\<lambda>(claimed_value, claiming_row_idx). v \<noteq> claimed_value)
              (collect_claims rows (state_code (rows ! i), month_canonical (rows ! i)))
              = Some (claimed, idx)
            \<and> check_rate_conflicts rows ! i =
                (rows ! i)\<lparr>qa_flags := qa_flags (rows ! i) @ [RateConflict v claimed idx],
                           is_publishable := False\<rparr>)
         \<and> (\<forall>j < length rows.
               (\<forall>k < length rows. \<not> contradicts (rows ! k) (rows ! j))
               \<longrightarrow> check_rate_conflicts rows ! j = rows ! j)"
proof (intro conjI allI impI)
  let ?cl = "collect_claims rows (state_code (rows ! i), month_canonical (rows ! i))"
  let ?P = "\<lambda>(claimed_value, claiming_row_idx). v \<noteq> (claimed_value :: rat)"
  from claim differs have "find ?P ?cl \<noteq> None"
    by (auto simp: find_None_iff)
  then obtain claimed idx where f: "find ?P ?cl = Some (claimed, idx :: int)"
    by fastforce
  with i pub rate
  have "check_rate_conflicts rows ! i =
          (rows ! i)\<lparr>qa_flags := qa_flags (rows ! i) @ [RateConflict v claimed idx],
                     is_publishable := False\<rparr>"
    by (simp add: check_rate_conflicts_nth check_row_conflict_def)
  with f show "\<exists>claimed idx. find ?P ?cl = Some (claimed, idx)
            \<and> check_rate_conflicts rows ! i =
                (rows ! i)\<lparr>qa_flags := qa_flags (rows ! i) @ [RateConflict v claimed idx],
                           is_publishable := False\<rparr>"
    by blast
next
  fix j
  assume j: "j < length rows"
    and "\<forall>k < length rows. \<not> contradicts (rows ! k) (rows ! j)"
  then have "find (\<lambda>b. contradicts b (rows ! j)) rows = None"
    by (auto simp: find_None_iff in_set_conv_nth)
  with j show "check_rate_conflicts rows ! j = rows ! j"
    by (simp add: check_rate_conflicts_nth check_row_conflict_eq)
qed

lemma claims_ri: "collect_claims ri_rows (''RI'', ''2025-11'') = [(5.3, 3)]"
  by (simp add: collect_claims_def add_claim_def ri_rows_def mk_row_def
      prev_month_2025_12 prev_month_2025_11)

lemma no_contradicts_ri: "\<forall>k < length ri_rows. \<not> contradicts (ri_rows ! k) (ri_rows ! 1)"
  by (simp add: contradicts_def ri_rows_def mk_row_def prev_month_2025_12 prev_month_2025_11
      less_Suc_eq nth_Cons')

theorem rate_conflict_pass_witness:
  "check_rate_conflicts ri_rows ! 0 =
     (ri_rows ! 0)\<lparr>qa_flags := [RateUnusuallyHigh 27.0, RateConflict 27.0 5.3 3],
                   is_publishable := False\<rparr>
   \<and> check_rate_conflicts ri_rows ! 1 = ri_rows ! 1"
proof -
  have i: "0 < length ri_rows"
    and pub: "is_publishable (ri_rows ! 0)"
    and rate: "unemployment_rate (ri_rows ! 0) = Some 27.0"
    and key: "(state_code (ri_rows ! 0), month_canonical (ri_rows ! 0)) = (''RI'', ''2025-11'')"
    and flags: "qa_flags (ri_rows ! 0) = [RateUnusuallyHigh 27.0]"
    and j: "1 < length ri_rows"
    by (simp_all add: ri_rows_def mk_row_def)
  have claim: "(5.3, 3) \<in> set (collect_claims ri_rows
                  (state_code (ri_rows ! 0), month_canonical (ri_rows ! 0)))"
    by (simp add: key claims_ri)
  have differs: "(5.3 :: rat) \<noteq> 27.0"
    by simp
  from rate_conflict_pass [OF i pub rate claim differs]
  obtain claimed idx
    where f: "find (\<lambda>(claimed_value, claiming_row_idx). 27.0 \<noteq> claimed_value)
                (collect_claims ri_rows (state_code (ri_rows ! 0), month_canonical (ri_rows ! 0)))
              = Some (claimed, idx)"
      and eq: "check_rate_conflicts ri_rows ! 0 =
                 (ri_rows ! 0)\<lparr>qa_flags := qa_flags (ri_rows ! 0) @ [RateConflict 27.0 claimed idx],
                               is_publishable := False\<rparr>"
      and others: "\<forall>j < length ri_rows.
                     (\<forall>k < length ri_rows. \<not> contradicts (ri_rows ! k) (ri_rows ! j))
                     \<longrightarrow> check_rate_conflicts ri_rows ! j = ri_rows ! j"
    by blast
  from f have c: "claimed = 5.3" "idx = 3"
    by (simp_all add: key claims_ri)
  from others j no_contradicts_ri have "check_rate_conflicts ri_rows ! 1 = ri_rows ! 1"
    by blast
  with eq c flags show ?thesis
    by simp
qed

text \<open>
  C3 as stated fails on a chain of three months: the November row is the claiming row
  for October (its prior rate 5.3 differs from October's 27.0), and the pass changes the
  November row itself, because December's prior rate 6.0 differs from November's 5.0.
\<close>

theorem claiming_row_changed_counterexample:
  "is_publishable (chain_rows ! 0) \<and> unemployment_rate (chain_rows ! 0) = Some 27.0
   \<and> is_publishable (chain_rows ! 1) \<and> unemployment_rate_prev_month (chain_rows ! 1) = Some 5.3
   \<and> state_code (chain_rows ! 1) = state_code (chain_rows ! 0)
   \<and> prev_month (month_canonical (chain_rows ! 1)) = Inr (month_canonical (chain_rows ! 0))
   \<and> collect_claims chain_rows (state_code (chain_rows ! 0), month_canonical (chain_rows ! 0))
       = [(5.3, source_row_index (chain_rows ! 1))]
   \<and> qa_flags (chain_rows ! 1) = []
   \<and> qa_flags (check_rate_conflicts chain_rows ! 1) = [RateConflict 5.0 6.0 4]
   \<and> \<not> is_publishable (check_rate_conflicts chain_rows ! 1)"
  by (simp add: chain_rows_def mk_row_def check_rate_conflicts_def check_row_conflict_def
      collect_claims_def add_claim_def prev_month_2025_12 prev_month_2025_11 prev_month_2025_10)


section \<open>The imputation pass\<close>

lemma foldl_add_will_have_value:
  "(s, m) \<in> foldl add_will_have_value W rows \<longleftrightarrow>
     (s, m) \<in> W \<or> (\<exists>r \<in> set rows. covers r s m)"
proof (induction rows arbitrary: W)
  case Nil
  show ?case by simp
next
  case (Cons r rows)
  have step: "(s, m) \<in> add_will_have_value W r \<longleftrightarrow> (s, m) \<in> W \<or> covers r s m"
    by (auto simp: add_will_have_value_def covers_def Let_def split: sum.splits)
  show ?case
    by (simp add: Cons.IH step)
qed

lemma will_have_value_iff:
  "(s, m) \<in> will_have_value rows \<longleftrightarrow> (\<exists>r \<in> set rows. covers r s m)"
  by (simp add: will_have_value_def foldl_add_will_have_value)

text \<open>
  C7 (amended). After \<^verbatim>\<open>_check_prev_month_imputed\<close>, every publishable row that
  carries \<^verbatim>\<open>missing_prev_month\<close> and whose implied prior month is in
  \<^verbatim>\<open>will_have_value\<close> has gained \<^verbatim>\<open>prev_month_imputed\<close>; an unpublishable
  row is left as it was; no verdict changes; and \<^verbatim>\<open>will_have_value\<close> holds exactly
  the pairs some row of the list covers.
\<close>

theorem imputation_pass:
  assumes i: "i < length rows"
  shows "(is_publishable (rows ! i) \<and> MissingPrevMonth \<in> set (qa_flags (rows ! i))
            \<and> prev_month (month_canonical (rows ! i)) = Inr prev
            \<and> (state_code (rows ! i), prev) \<in> will_have_value rows
          \<longrightarrow> check_prev_month_imputed rows ! i =
                (rows ! i)\<lparr>qa_flags := qa_flags (rows ! i) @ [PrevMonthImputed prev]\<rparr>)
         \<and> (\<not> is_publishable (rows ! i) \<longrightarrow> check_prev_month_imputed rows ! i = rows ! i)
         \<and> is_publishable (check_prev_month_imputed rows ! i) = is_publishable (rows ! i)
         \<and> (\<forall>s m. (s, m) \<in> will_have_value rows \<longleftrightarrow> (\<exists>r \<in> set rows. covers r s m))"
proof (intro conjI impI allI)
  assume "is_publishable (rows ! i) \<and> MissingPrevMonth \<in> set (qa_flags (rows ! i))
            \<and> prev_month (month_canonical (rows ! i)) = Inr prev
            \<and> (state_code (rows ! i), prev) \<in> will_have_value rows"
  with i show "check_prev_month_imputed rows ! i =
                (rows ! i)\<lparr>qa_flags := qa_flags (rows ! i) @ [PrevMonthImputed prev]\<rparr>"
    by (simp add: check_prev_month_imputed_def flag_imputed_def)
next
  assume "\<not> is_publishable (rows ! i)"
  with i show "check_prev_month_imputed rows ! i = rows ! i"
    by (simp add: check_prev_month_imputed_def flag_imputed_def)
next
  from i show "is_publishable (check_prev_month_imputed rows ! i) = is_publishable (rows ! i)"
    by (simp add: check_prev_month_imputed_def)
next
  fix s m
  show "(s, m) \<in> will_have_value rows \<longleftrightarrow> (\<exists>r \<in> set rows. covers r s m)"
    by (rule will_have_value_iff)
qed

theorem imputation_pass_witness:
  "check_prev_month_imputed imputed_rows ! 1 =
     (imputed_rows ! 1)\<lparr>qa_flags := [MissingPrevMonth, PrevMonthImputed ''2025-11'']\<rparr>
   \<and> is_publishable (check_prev_month_imputed imputed_rows ! 1)"
proof -
  have i: "1 < length imputed_rows"
    and pub: "is_publishable (imputed_rows ! 1)"
    and flag: "MissingPrevMonth \<in> set (qa_flags (imputed_rows ! 1))"
    and flags: "qa_flags (imputed_rows ! 1) = [MissingPrevMonth]"
    and prev: "prev_month (month_canonical (imputed_rows ! 1)) = Inr ''2025-11''"
    and code: "state_code (imputed_rows ! 1) = ''AL''"
    by (simp_all add: imputed_rows_def mk_row_def prev_month_2025_12)
  have "covers (imputed_rows ! 0) ''AL'' ''2025-11''"
    by (simp add: covers_def imputed_rows_def mk_row_def)
  then have "(''AL'', ''2025-11'') \<in> will_have_value imputed_rows"
    using imputation_pass [OF i, of "''2025-11''"] by (auto simp: imputed_rows_def)
  with imputation_pass [OF i, of "''2025-11''"] pub flag prev code flags
  show ?thesis
    by simp
qed

text \<open>
  C7 as stated fails for an unpublishable row: the December row carries
  \<^verbatim>\<open>missing_prev_month\<close>, its prior month November is in \<^verbatim>\<open>will_have_value\<close>
  (the published November row), and the pass adds no flag to it.
\<close>

theorem unpublishable_row_not_imputed_counterexample:
  "MissingPrevMonth \<in> set (qa_flags (gap_rows ! 1))
   \<and> prev_month (month_canonical (gap_rows ! 1)) = Inr ''2025-11''
   \<and> is_publishable (gap_rows ! 0) \<and> unemployment_rate (gap_rows ! 0) = Some 4.5
   \<and> state_code (gap_rows ! 0) = state_code (gap_rows ! 1)
   \<and> month_canonical (gap_rows ! 0) = ''2025-11''
   \<and> (state_code (gap_rows ! 1), ''2025-11'') \<in> will_have_value gap_rows
   \<and> qa_flags (check_prev_month_imputed gap_rows ! 1) = [MissingRate, MissingPrevMonth]"
  by (simp add: gap_rows_def mk_row_def check_prev_month_imputed_def flag_imputed_def
      will_have_value_def add_will_have_value_def prev_month_2025_12 prev_month_2025_11)

section \<open>The publish gate\<close>

lemma group_fold:
  assumes "distinct (map fst al)"
  shows "distinct (map fst (foldl add_state_row al rows))
     \<and> fst ` set (foldl add_state_row al rows) = fst ` set al \<union> state_code ` set rows
     \<and> (\<forall>c. map_of (foldl add_state_row al rows) c =
           (case map_of al c of
              None \<Rightarrow> if c \<in> state_code ` set rows
                        then Some (filter (\<lambda>r. state_code r = c) rows) else None
            | Some rs \<Rightarrow> Some (rs @ filter (\<lambda>r. state_code r = c) rows)))"
  using assms
proof (induction rows arbitrary: al)
  case Nil
  then show ?case by (auto split: option.splits)
next
  case (Cons r rows)
  let ?al = "add_state_row al r"
  have d: "distinct (map fst ?al)"
    using Cons.prems by (simp add: add_state_row_def distinct_map_default)
  have dom: "fst ` set ?al = insert (state_code r) (fst ` set al)"
    by (simp add: add_state_row_def dom_map_default)
  have m: "map_of ?al = (map_of al)(state_code r :=
             case map_of al (state_code r) of None \<Rightarrow> Some [r] | Some rs \<Rightarrow> Some (rs @ [r]))"
    by (simp add: add_state_row_def map_of_map_default)
  from Cons.IH [OF d] show ?case
    by (auto simp: dom m split: option.splits)
qed

lemma group_by_state_props:
  "distinct (map fst (group_by_state rows))"
  "fst ` set (group_by_state rows) = state_code ` set rows"
  "(c, rs) \<in> set (group_by_state rows) \<longleftrightarrow>
     c \<in> state_code ` set rows \<and> rs = filter (\<lambda>r. state_code r = c) rows"
proof -
  have g: "distinct (map fst (group_by_state rows))
     \<and> fst ` set (group_by_state rows) = state_code ` set rows
     \<and> (\<forall>c. map_of (group_by_state rows) c =
           (if c \<in> state_code ` set rows
            then Some (filter (\<lambda>r. state_code r = c) rows) else None))"
    using group_fold [of "[]" rows] by (simp add: group_by_state_def)
  then show d: "distinct (map fst (group_by_state rows))"
    and "fst ` set (group_by_state rows) = state_code ` set rows"
    by simp_all
  from g d show "(c, rs) \<in> set (group_by_state rows) \<longleftrightarrow>
     c \<in> state_code ` set rows \<and> rs = filter (\<lambda>r. state_code r = c) rows"
    by (metis map_of_eq_Some_iff option.distinct(1) option.inject)
qed

lemma fully_unpublishable_card:
  "fully_unpublishable rows = card (fully_unpublishable_states rows)"
proof -
  let ?g = "group_by_state rows"
  let ?P = "\<lambda>rs. list_all (\<lambda>r. \<not> is_publishable r) rs"
  have dg: "distinct ?g"
    using group_by_state_props(1) [of rows] by (rule distinct_map [THEN iffD1, THEN conjunct1])
  have inj: "inj_on fst (set ?g)"
    using group_by_state_props(1) [of rows] by (simp add: distinct_map)
  have "fully_unpublishable rows = length (filter (\<lambda>p. ?P (snd p)) ?g)"
    by (simp add: fully_unpublishable_def filter_map o_def)
  also have "\<dots> = card (set (filter (\<lambda>p. ?P (snd p)) ?g))"
    by (rule distinct_card [symmetric]) (rule distinct_filter [OF dg])
  also have "\<dots> = card (fst ` set (filter (\<lambda>p. ?P (snd p)) ?g))"
    by (rule card_image [symmetric]) (rule inj_on_subset [OF inj], auto)
  also have "fst ` set (filter (\<lambda>p. ?P (snd p)) ?g) = fully_unpublishable_states rows"
    by (auto simp: fully_unpublishable_states_def group_by_state_props(3) list_all_iff image_iff)
  finally show ?thesis .
qed


lemma fully_unpublishable_states_remove:
  assumes "r \<in> set rows" "is_publishable r"
  shows "fully_unpublishable_states (filter (\<lambda>x. state_code x \<noteq> state_code r) rows)
           = fully_unpublishable_states rows"
  using assms by (auto simp: fully_unpublishable_states_def)

lemma gate_threshold: "(of_nat n / 50 > (0.40 :: rat)) \<longleftrightarrow> 20 < n"
proof -
  have "(of_nat n / 50 > (0.40 :: rat)) \<longleftrightarrow> (of_nat 20 :: rat) < of_nat n"
    by (simp add: field_simps)
  then show ?thesis
    by (simp only: of_nat_less_iff)
qed

text \<open>
  C2. \<^verbatim>\<open>_check_publish_gate\<close> returns false exactly when the number of state
  codes all of whose rows are unpublishable, divided by 50, is greater than 0.40; the
  number the code counts is the number of those state codes; with 20 of them the gate
  passes and with 21 it fails; and a state code with a publishable row is not among them,
  so that dropping all rows of that state leaves the count as it is.
\<close>

theorem publish_gate_boundary:
  "(check_publish_gate rows \<longleftrightarrow>
      \<not> (of_nat (card (fully_unpublishable_states rows)) / 50 > (0.40 :: rat)))
   \<and> fully_unpublishable rows = card (fully_unpublishable_states rows)
   \<and> (card (fully_unpublishable_states rows) = 20 \<longrightarrow> check_publish_gate rows)
   \<and> (card (fully_unpublishable_states rows) = 21 \<longrightarrow> \<not> check_publish_gate rows)
   \<and> (\<forall>r \<in> set rows. is_publishable r \<longrightarrow>
         state_code r \<notin> fully_unpublishable_states rows
         \<and> fully_unpublishable (filter (\<lambda>x. state_code x \<noteq> state_code r) rows)
             = fully_unpublishable rows)"
proof -
  have gate: "check_publish_gate rows \<longleftrightarrow>
      \<not> (of_nat (card (fully_unpublishable_states rows)) / 50 > (0.40 :: rat))"
    by (simp add: check_publish_gate_def fully_unpublishable_card TOTAL_STATES_def
        PUBLISH_GATE_THRESHOLD_def)
  have b20: "card (fully_unpublishable_states rows) = 20 \<longrightarrow> check_publish_gate rows"
    by (simp add: gate gate_threshold)
  have b21: "card (fully_unpublishable_states rows) = 21 \<longrightarrow> \<not> check_publish_gate rows"
    by (simp add: gate gate_threshold)
  have mixed: "\<forall>r \<in> set rows. is_publishable r \<longrightarrow>
         state_code r \<notin> fully_unpublishable_states rows
         \<and> fully_unpublishable (filter (\<lambda>x. state_code x \<noteq> state_code r) rows)
             = fully_unpublishable rows"
    by (auto simp: fully_unpublishable_card fully_unpublishable_states_remove)
       (auto simp: fully_unpublishable_states_def)
  from gate b20 b21 mixed show ?thesis
    by (simp only: fully_unpublishable_card)
qed

lemma count_gate_rows_20: "fully_unpublishable (gate_rows 20) = 20"
  by code_simp

lemma count_gate_rows_21: "fully_unpublishable (gate_rows 21) = 21"
  by code_simp

theorem publish_gate_boundary_witness:
  "card (fully_unpublishable_states (gate_rows 20)) = 20 \<and> check_publish_gate (gate_rows 20)
   \<and> card (fully_unpublishable_states (gate_rows 21)) = 21 \<and> \<not> check_publish_gate (gate_rows 21)
   \<and> ''S49'' \<notin> fully_unpublishable_states (gate_rows 20)"
proof -
  have c20: "card (fully_unpublishable_states (gate_rows 20)) = 20"
    using count_gate_rows_20 by (simp only: fully_unpublishable_card)
  have c21: "card (fully_unpublishable_states (gate_rows 21)) = 21"
    using count_gate_rows_21 by (simp only: fully_unpublishable_card)
  let ?r = "mk_row ''S49'' ''2025-12'' (Some 4.0) (Some 4.1) 0 [] True"
  have mem: "?r \<in> set (gate_rows 20)"
    by code_simp
  have pub: "is_publishable ?r" and code: "state_code ?r = ''S49''"
    by (simp_all add: mk_row_def)
  from publish_gate_boundary [of "gate_rows 20"] c20
  have g20: "check_publish_gate (gate_rows 20)"
    by blast
  from publish_gate_boundary [of "gate_rows 21"] c21
  have g21: "\<not> check_publish_gate (gate_rows 21)"
    by blast
  from publish_gate_boundary [of "gate_rows 20"] mem pub
  have "state_code ?r \<notin> fully_unpublishable_states (gate_rows 20)"
    by blast
  with code have s49: "''S49'' \<notin> fully_unpublishable_states (gate_rows 20)"
    by simp
  from c20 g20 c21 g21 s49 show ?thesis
    by blast
qed

section \<open>Structural validity of a raw record\<close>

lemma get_state_by_code_AL: "get_state_by_code ''AL'' = Some (mk_state ''Alabama'' ''AL'' ''01'' ''South'' ''East South Central'')"
  by code_simp

lemma coerce_str_iff: "coerce_str c \<noteq> None \<longleftrightarrow> is_str_field c"
  by (auto simp: coerce_str_def is_str_field_def is_str_def split: option.splits cell.splits)

lemma coerce_opt_float_iff: "coerce_opt_float c \<noteq> None \<longleftrightarrow> is_number_or_null c"
  by (auto simp: coerce_opt_float_def is_number_or_null_def split: option.splits cell.splits)

lemma coerce_month_iff: "coerce_month c \<noteq> None \<longleftrightarrow> has_value c"
  by (auto simp: coerce_month_def has_value_def split: option.splits cell.splits)

lemma RawRow_of_None_iff:
  "RawRow_of d = None \<longleftrightarrow>
     \<not> (is_str_field (d ''state'') \<and> is_str_field (d ''state_code'') \<and> has_value (d ''month'')
        \<and> is_number_or_null (d ''unemployment_rate'')
        \<and> is_number_or_null (d ''unemployment_rate_prev_month'')
        \<and> is_str_field (d ''source''))"
  unfolding coerce_str_iff [symmetric] coerce_opt_float_iff [symmetric] coerce_month_iff [symmetric]
  by (auto simp: RawRow_of_def split: option.splits)

lemma RawRow_of_month:
  "RawRow_of d = Some raw \<Longrightarrow> d ''month'' = Some c \<Longrightarrow> raw_month raw = strip (py_str c)"
  by (auto simp: RawRow_of_def coerce_month_def split: option.splits cell.splits)

text \<open>
  C8 (amended). \<^verbatim>\<open>_validate_row\<close> returns \<^verbatim>\<open>None\<close> exactly when a field
  fails \<^verbatim>\<open>RawRow\<close>'s coercion: \<^verbatim>\<open>state\<close>, \<^verbatim>\<open>state_code\<close> or
  \<^verbatim>\<open>source\<close> is not a \<^verbatim>\<open>str\<close>, a rate is neither a number nor
  \<^verbatim>\<open>None\<close>, or the month is absent or \<^verbatim>\<open>None\<close>. A month of any other type
  is first turned into its \<^verbatim>\<open>str()\<close> text, stripped: the row is kept, with that
  text (normalized when it parses) as its month.
\<close>

theorem structural_drop:
  "(validate_row d idx = None \<longleftrightarrow>
      \<not> (is_str_field (d ''state'') \<and> is_str_field (d ''state_code'') \<and> has_value (d ''month'')
         \<and> is_number_or_null (d ''unemployment_rate'')
         \<and> is_number_or_null (d ''unemployment_rate_prev_month'')
         \<and> is_str_field (d ''source'')))
   \<and> (\<forall>row c. validate_row d idx = Some row \<and> d ''month'' = Some c \<longrightarrow>
         month_canonical row =
           (case normalize_date (strip (py_str c)) of
              None \<Rightarrow> strip (py_str c)
            | Some m \<Rightarrow> m))"
proof (intro conjI allI impI)
  show "validate_row d idx = None \<longleftrightarrow>
      \<not> (is_str_field (d ''state'') \<and> is_str_field (d ''state_code'') \<and> has_value (d ''month'')
         \<and> is_number_or_null (d ''unemployment_rate'')
         \<and> is_number_or_null (d ''unemployment_rate_prev_month'')
         \<and> is_str_field (d ''source''))"
  proof -
    have "validate_row d idx = None \<longleftrightarrow> RawRow_of d = None"
      by (simp add: validate_row_def split: option.splits)
    then show ?thesis
      by (simp only: RawRow_of_None_iff)
  qed
next
  fix row c
  assume a: "validate_row d idx = Some row \<and> d ''month'' = Some c"
  then obtain raw where raw: "RawRow_of d = Some raw" and row: "row = validate_raw raw idx"
    by (auto simp: validate_row_def split: option.splits)
  from raw a have m: "raw_month raw = strip (py_str c)"
    by (simp add: RawRow_of_month)
  show "month_canonical row =
           (case normalize_date (strip (py_str c)) of
              None \<Rightarrow> strip (py_str c)
            | Some m \<Rightarrow> m)"
    by (simp add: row validate_raw_def date_normalization_def m split: prod.splits option.splits)
qed

text \<open>
  C8 as stated fails for a month cell holding a date-time: it is not a \<^verbatim>\<open>str\<close>, and
  the record becomes a \<^verbatim>\<open>ValidatedRow\<close> flagged \<^verbatim>\<open>unparseable_date\<close>.
\<close>

theorem non_string_month_kept_counterexample:
  "\<not> is_str (CObj ''2025-12-01 00:00:00'')
   \<and> validate_row (al_record (CObj ''2025-12-01 00:00:00'') (CNum 4.5 ''4.5'')) 2 =
       Some \<lparr>state_canonical = ''Alabama'', state_code = ''AL'',
             month_canonical = ''2025-12-01 00:00:00'',
             unemployment_rate = Some 4.5, unemployment_rate_prev_month = Some 4.4,
             source = ''BLS'', source_row_index = 2,
             qa_flags = [UnparseableDate ''2025-12-01 00:00:00''],
             is_publishable = False\<rparr>"
  by code_simp


theorem structural_drop_witness:
  "validate_row (al_record CNone (CNum 4.5 ''4.5'')) 2 = None
   \<and> (\<exists>row. validate_row (al_record (CNum 202512 ''202512'') (CNum 4.5 ''4.5'')) 2 = Some row
          \<and> month_canonical row = ''202512'')"
proof -
  have absent: "\<not> has_value (al_record CNone (CNum 4.5 ''4.5'') ''month'')"
    by (simp add: al_record_def has_value_def)
  let ?d = "al_record (CNum 202512 ''202512'') (CNum 4.5 ''4.5'')"
  have fields: "is_str_field (?d ''state'')" "is_str_field (?d ''state_code'')"
    "has_value (?d ''month'')" "is_number_or_null (?d ''unemployment_rate'')"
    "is_number_or_null (?d ''unemployment_rate_prev_month'')" "is_str_field (?d ''source'')"
    by (simp_all add: al_record_def is_str_field_def is_str_def has_value_def
        is_number_or_null_def)
  have month: "?d ''month'' = Some (CNum 202512 ''202512'')"
    by (simp add: al_record_def)
  have mtext: "normalize_date (strip (py_str (CNum 202512 ''202512''))) = None"
    "strip (py_str (CNum 202512 ''202512'')) = ''202512''"
    by (simp_all add: py_str_def strip_def is_space_def normalize_date_def date_pattern_match_def)
  from structural_drop [of "al_record CNone (CNum 4.5 ''4.5'')" 2] absent
  have dropped: "validate_row (al_record CNone (CNum 4.5 ''4.5'')) 2 = None"
    by blast
  from structural_drop [of ?d 2] fields
  obtain row where row: "validate_row ?d 2 = Some row"
    by fastforce
  with structural_drop [of ?d 2] month
  have "month_canonical row = (case normalize_date (strip (py_str (CNum 202512 ''202512''))) of
              None \<Rightarrow> strip (py_str (CNum 202512 ''202512''))
            | Some m \<Rightarrow> m)"
    by blast
  with mtext have "month_canonical row = ''202512''"
    by simp
  with dropped row show ?thesis
    by blast
qed

lemma rate_plausibility_cases:
  "rate_plausibility raw =
     (case raw_unemployment_rate raw of
        None \<Rightarrow> ([MissingRate], False)
      | Some r \<Rightarrow>
          if r < 0 \<or> 100 \<le> r then ([ImplausibleRate r], False)
          else if 15 \<le> r then ([RateUnusuallyHigh r], True)
          else ([], True))"
  by (simp add: rate_plausibility_def IMPLAUSIBLE_RATE_LOWER_BOUND_def
      IMPLAUSIBLE_RATE_UPPER_BOUND_def RATE_WARNING_THRESHOLD_def split: option.splits)

lemma state_resolution_flags:
  "state_resolution raw = (fs, ok, nm) \<Longrightarrow>
     (ok \<longleftrightarrow> get_state_by_code (upper (strip (raw_state_code raw))) \<noteq> None)
     \<and> (\<forall>f \<in> set fs. \<exists>a b. f = UnknownStateCode a \<or> f = StateNameNormalized a b)"
  by (auto simp: state_resolution_def Let_def split: option.splits if_splits)

lemma date_normalization_flags:
  "date_normalization raw = (fs, ok, mc) \<Longrightarrow>
     (ok \<longleftrightarrow> normalize_date (raw_month raw) \<noteq> None)
     \<and> (\<forall>f \<in> set fs. \<exists>a b. f = UnparseableDate a \<or> f = DateCorrected a b)"
  by (auto simp: date_normalization_def split: option.splits if_splits)

lemma null_prev_month_flags: "set (null_prev_month raw) \<subseteq> {MissingPrevMonth}"
  by (auto simp: null_prev_month_def)

lemma validate_raw_fields:
  "qa_flags (validate_raw raw idx) =
     fst (state_resolution raw) @ fst (date_normalization raw) @ fst (rate_plausibility raw)
       @ null_prev_month raw"
  "is_publishable (validate_raw raw idx) \<longleftrightarrow>
     fst (snd (state_resolution raw)) \<and> fst (snd (date_normalization raw))
     \<and> snd (rate_plausibility raw)"
  "unemployment_rate (validate_raw raw idx) = raw_unemployment_rate raw"
  by (simp_all add: validate_raw_def split: prod.splits)

section \<open>Rate plausibility\<close>

lemma rate_plausibility_ok:
  "snd (rate_plausibility raw) \<longleftrightarrow>
     (\<exists>r. raw_unemployment_rate raw = Some r \<and> 0 \<le> r \<and> r < 100)"
  by (cases "raw_unemployment_rate raw") (auto simp: rate_plausibility_cases)

lemma validate_raw_publishable:
  "is_publishable (validate_raw raw idx) \<longleftrightarrow>
     get_state_by_code (upper (strip (raw_state_code raw))) \<noteq> None
     \<and> normalize_date (raw_month raw) \<noteq> None
     \<and> (\<exists>r. raw_unemployment_rate raw = Some r \<and> 0 \<le> r \<and> r < 100)"
proof -
  obtain fs1 ok1 nm where s: "state_resolution raw = (fs1, ok1, nm)"
    by (cases "state_resolution raw") auto
  obtain fs2 ok2 mc where d: "date_normalization raw = (fs2, ok2, mc)"
    by (cases "date_normalization raw") auto
  from state_resolution_flags [OF s]
  have ok1: "ok1 \<longleftrightarrow> get_state_by_code (upper (strip (raw_state_code raw))) \<noteq> None"
    by (rule conjunct1)
  from date_normalization_flags [OF d]
  have ok2: "ok2 \<longleftrightarrow> normalize_date (raw_month raw) \<noteq> None"
    by (rule conjunct1)
  have "is_publishable (validate_raw raw idx) \<longleftrightarrow> ok1 \<and> ok2 \<and> snd (rate_plausibility raw)"
    by (simp add: validate_raw_fields(2) s d)
  then show ?thesis
    by (simp only: ok1 ok2 rate_plausibility_ok)
qed

lemma rate_flag_in_validate_raw:
  assumes "f = MissingRate \<or> f = ImplausibleRate x \<or> f = RateUnusuallyHigh x"
  shows "f \<in> set (qa_flags (validate_raw raw idx)) \<longleftrightarrow> f \<in> set (fst (rate_plausibility raw))"
proof -
  obtain fs1 ok1 nm where s: "state_resolution raw = (fs1, ok1, nm)"
    by (cases "state_resolution raw") auto
  obtain fs2 ok2 mc where d: "date_normalization raw = (fs2, ok2, mc)"
    by (cases "date_normalization raw") auto
  from state_resolution_flags [OF s] assms have n1: "f \<notin> set fs1"
    by fastforce
  from date_normalization_flags [OF d] assms have n2: "f \<notin> set fs2"
    by fastforce
  from null_prev_month_flags [of raw] assms have n3: "f \<notin> set (null_prev_month raw)"
    by fastforce
  have "qa_flags (validate_raw raw idx) = fs1 @ fs2 @ fst (rate_plausibility raw) @ null_prev_month raw"
    by (simp add: validate_raw_fields(1) s d)
  with n1 n2 n3 show ?thesis
    by simp
qed

lemmas missing_rate_flag = rate_flag_in_validate_raw [of MissingRate, simplified]
lemmas implausible_rate_flag = rate_flag_in_validate_raw [of "ImplausibleRate x" x, simplified] for x
lemmas unusually_high_flag = rate_flag_in_validate_raw [of "RateUnusuallyHigh x" x, simplified] for x


text \<open>
  C5. For a record that passes \<^verbatim>\<open>RawRow\<close>, whose state code is in the reference
  table and whose month parses, \<^verbatim>\<open>_validate_row\<close> returns a row such that: without
  a current rate it is flagged \<^verbatim>\<open>missing_rate\<close> and unpublishable; with a rate
  below 0 or at least 100 it is flagged \<^verbatim>\<open>implausible_rate\<close> and unpublishable; with
  a rate \<open>r\<close> from 0 up to but excluding 100 it is publishable, and it carries a flag
  \<^verbatim>\<open>rate_unusually_high\<close> (for \<open>r\<close>, and no other) exactly when \<open>r\<close> is at least 15.
\<close>

theorem rate_plausibility_verdict:
  assumes raw: "RawRow_of d = Some raw"
    and known: "get_state_by_code (upper (strip (raw_state_code raw))) \<noteq> None"
    and parses: "normalize_date (raw_month raw) \<noteq> None"
  shows "\<exists>row. validate_row d idx = Some row
           \<and> unemployment_rate row = raw_unemployment_rate raw
           \<and> (unemployment_rate row = None \<longrightarrow>
                MissingRate \<in> set (qa_flags row) \<and> \<not> is_publishable row)
           \<and> (\<forall>r. unemployment_rate row = Some r \<and> (r < 0 \<or> 100 \<le> r) \<longrightarrow>
                ImplausibleRate r \<in> set (qa_flags row) \<and> \<not> is_publishable row)
           \<and> (\<forall>r. unemployment_rate row = Some r \<and> 0 \<le> r \<and> r < 100 \<longrightarrow>
                is_publishable row
                \<and> (\<forall>x. RateUnusuallyHigh x \<in> set (qa_flags row) \<longleftrightarrow> x = r \<and> 15 \<le> r))"
proof -
  let ?row = "validate_raw raw idx"
  have v: "validate_row d idx = Some ?row"
    by (simp add: validate_row_def raw)
  have rate: "unemployment_rate ?row = raw_unemployment_rate raw"
    by (simp add: validate_raw_fields(3))
  have missing: "unemployment_rate ?row = None \<longrightarrow>
                MissingRate \<in> set (qa_flags ?row) \<and> \<not> is_publishable ?row"
    by (simp add: missing_rate_flag validate_raw_publishable rate rate_plausibility_cases)
  have implausible: "\<forall>r. unemployment_rate ?row = Some r \<and> (r < 0 \<or> 100 \<le> r) \<longrightarrow>
                ImplausibleRate r \<in> set (qa_flags ?row) \<and> \<not> is_publishable ?row"
  proof (intro allI impI)
    fix r assume a: "unemployment_rate ?row = Some r \<and> (r < 0 \<or> 100 \<le> r)"
    then have r: "raw_unemployment_rate raw = Some r" and out: "r < 0 \<or> 100 \<le> r"
      by (simp_all add: rate)
    from r out have "ImplausibleRate r \<in> set (qa_flags ?row)"
      by (simp add: implausible_rate_flag rate_plausibility_cases)
    moreover from r out have "\<not> is_publishable ?row"
      by (auto simp: validate_raw_publishable)
    ultimately show "ImplausibleRate r \<in> set (qa_flags ?row) \<and> \<not> is_publishable ?row"
      by simp
  qed
  have plausible: "\<forall>r. unemployment_rate ?row = Some r \<and> 0 \<le> r \<and> r < 100 \<longrightarrow>
                is_publishable ?row
                \<and> (\<forall>x. RateUnusuallyHigh x \<in> set (qa_flags ?row) \<longleftrightarrow> x = r \<and> 15 \<le> r)"
  proof (intro allI impI)
    fix r assume a: "unemployment_rate ?row = Some r \<and> 0 \<le> r \<and> r < 100"
    then have r: "raw_unemployment_rate raw = Some r" and inr: "0 \<le> r" "r < 100"
      by (simp_all add: rate)
    from r inr known parses have p: "is_publishable ?row"
      by (simp add: validate_raw_publishable)
    from r inr have "\<forall>x. RateUnusuallyHigh x \<in> set (qa_flags ?row) \<longleftrightarrow> x = r \<and> 15 \<le> r"
      by (auto simp: unusually_high_flag rate_plausibility_cases)
    with p show "is_publishable ?row
                \<and> (\<forall>x. RateUnusuallyHigh x \<in> set (qa_flags ?row) \<longleftrightarrow> x = r \<and> 15 \<le> r)"
      by simp
  qed
  show ?thesis
  proof (intro exI conjI)
    show "validate_row d idx = Some ?row" by (fact v)
    show "unemployment_rate ?row = raw_unemployment_rate raw" by (fact rate)
    show "unemployment_rate ?row = None \<longrightarrow>
                MissingRate \<in> set (qa_flags ?row) \<and> \<not> is_publishable ?row"
      by (fact missing)
    show "\<forall>r. unemployment_rate ?row = Some r \<and> (r < 0 \<or> 100 \<le> r) \<longrightarrow>
                ImplausibleRate r \<in> set (qa_flags ?row) \<and> \<not> is_publishable ?row"
      by (fact implausible)
    show "\<forall>r. unemployment_rate ?row = Some r \<and> 0 \<le> r \<and> r < 100 \<longrightarrow>
                is_publishable ?row
                \<and> (\<forall>x. RateUnusuallyHigh x \<in> set (qa_flags ?row) \<longleftrightarrow> x = r \<and> 15 \<le> r)"
      by (fact plausible)
  qed
qed

lemma RawRow_of_al_record:
  "RawRow_of (al_record (CStr m) (CNum r t)) = Some (al_raw (strip m) (Some r))"
  by (simp add: RawRow_of_def al_record_def al_raw_def coerce_str_def coerce_month_def
      coerce_opt_float_def py_str_def)

lemma strip_AL: "upper (strip ''AL'') = ''AL''"
  by (simp add: strip_def is_space_def upper_def upper_char_def)

lemma strip_2025_12: "strip ''2025-12'' = ''2025-12''"
  by (simp add: strip_def is_space_def)

lemma normalize_2025_12: "normalize_date ''2025-12'' = Some ''2025-12''"
  by (simp add: normalize_date_def date_pattern_match_def strip_def is_space_def is_digit_def)

theorem rate_plausibility_verdict_witness:
  "\<exists>row. validate_row (al_record (CStr ''2025-12'') (CNum 27.0 ''27.0'')) 2 = Some row
          \<and> unemployment_rate row = Some 27.0 \<and> is_publishable row
          \<and> RateUnusuallyHigh 27.0 \<in> set (qa_flags row)"
proof -
  let ?d = "al_record (CStr ''2025-12'') (CNum 27.0 ''27.0'')"
  let ?raw = "al_raw ''2025-12'' (Some 27.0)"
  have raw: "RawRow_of ?d = Some ?raw"
    by (simp add: RawRow_of_al_record strip_2025_12)
  have known: "get_state_by_code (upper (strip (raw_state_code ?raw))) \<noteq> None"
    by (simp add: al_raw_def strip_AL get_state_by_code_AL)
  have parses: "normalize_date (raw_month ?raw) \<noteq> None"
    by (simp add: al_raw_def normalize_2025_12)
  from rate_plausibility_verdict [OF raw known parses, of 2]
  obtain row where row: "validate_row ?d 2 = Some row"
    and rate: "unemployment_rate row = raw_unemployment_rate ?raw"
    and ok: "\<forall>r. unemployment_rate row = Some r \<and> 0 \<le> r \<and> r < 100 \<longrightarrow>
                is_publishable row
                \<and> (\<forall>x. RateUnusuallyHigh x \<in> set (qa_flags row) \<longleftrightarrow> x = r \<and> 15 \<le> r)"
    by blast
  from rate have r: "unemployment_rate row = Some 27.0"
    by (simp add: al_raw_def)
  with ok have "is_publishable row
                \<and> (\<forall>x. RateUnusuallyHigh x \<in> set (qa_flags row) \<longleftrightarrow> x = 27.0 \<and> (15 :: rat) \<le> 27.0)"
    by simp
  then have "is_publishable row \<and> RateUnusuallyHigh 27.0 \<in> set (qa_flags row)"
    by simp
  with row r show ?thesis
    by blast
qed

section \<open>Date normalization\<close>

lemma date_pattern_match_7:
  assumes "list_all is_digit [a, b, c, d, e, f]" "sep = CHR ''/'' \<or> sep = CHR ''-''"
  shows "date_pattern_match [a, b, c, d, sep, e, f] = Some ([a, b, c, d], [e, f])"
  using assms by (simp add: date_pattern_match_def)

lemma unparseable_flag_in_validate_raw:
  "UnparseableDate s \<in> set (qa_flags (validate_raw raw idx)) \<longleftrightarrow>
     UnparseableDate s \<in> set (fst (date_normalization raw))"
proof -
  obtain fs1 ok1 nm where s: "state_resolution raw = (fs1, ok1, nm)"
    by (cases "state_resolution raw") auto
  from state_resolution_flags [OF s] have n1: "UnparseableDate s \<notin> set fs1"
    by fastforce
  have n2: "UnparseableDate s \<notin> set (fst (rate_plausibility raw))"
    by (cases "raw_unemployment_rate raw") (auto simp: rate_plausibility_cases)
  from null_prev_month_flags [of raw] have n3: "UnparseableDate s \<notin> set (null_prev_month raw)"
    by fastforce
  have "qa_flags (validate_raw raw idx) =
          fs1 @ fst (date_normalization raw) @ fst (rate_plausibility raw) @ null_prev_month raw"
    by (simp add: validate_raw_fields(1) s)
  with n1 n2 n3 show ?thesis
    by simp
qed

lemma validate_raw_month_ok:
  assumes digits: "list_all is_digit [a, b, c, d, e, f]"
    and sep: "sep = CHR ''/'' \<or> sep = CHR ''-''"
    and stripped: "strip month = [a, b, c, d, sep, e, f]"
  shows "normalize_date month = Some [a, b, c, d, CHR ''-'', e, f]
     \<and> (\<forall>raw idx. raw_month raw = month \<longrightarrow>
           month_canonical (validate_raw raw idx) = [a, b, c, d, CHR ''-'', e, f]
           \<and> (\<forall>s. UnparseableDate s \<notin> set (qa_flags (validate_raw raw idx)))
           \<and> (is_publishable (validate_raw raw idx) \<longleftrightarrow>
                get_state_by_code (upper (strip (raw_state_code raw))) \<noteq> None
                \<and> (\<exists>r. raw_unemployment_rate raw = Some r \<and> 0 \<le> r \<and> r < 100)))"
proof (intro conjI allI impI)
  show n: "normalize_date month = Some [a, b, c, d, CHR ''-'', e, f]"
    by (simp add: normalize_date_def stripped date_pattern_match_7 [OF digits sep])
  fix raw :: RawRow and idx :: int
  assume m: "raw_month raw = month"
  have dn: "date_normalization raw =
              (if strip month \<noteq> [a, b, c, d, CHR ''-'', e, f]
               then [DateCorrected (strip month) [a, b, c, d, CHR ''-'', e, f]] else [],
               True, [a, b, c, d, CHR ''-'', e, f])"
    by (simp add: date_normalization_def m n)
  show "month_canonical (validate_raw raw idx) = [a, b, c, d, CHR ''-'', e, f]"
    by (simp add: validate_raw_def dn split: prod.splits)
  show "UnparseableDate s \<notin> set (qa_flags (validate_raw raw idx))" for s
    by (simp add: unparseable_flag_in_validate_raw dn)
  show "is_publishable (validate_raw raw idx) \<longleftrightarrow>
                get_state_by_code (upper (strip (raw_state_code raw))) \<noteq> None
                \<and> (\<exists>r. raw_unemployment_rate raw = Some r \<and> 0 \<le> r \<and> r < 100)"
    by (simp add: validate_raw_publishable m n)
qed


lemma digit_not_space: "is_digit c \<Longrightarrow> \<not> is_space c"
  by (auto simp: is_digit_def is_space_def Let_def)

lemma strip_date_text:
  assumes "is_digit a" "is_digit f"
  shows "strip (a # bs @ [f]) = a # bs @ [f]"
  using assms by (simp add: strip_def digit_not_space)

lemma validate_raw_state_code:
  "state_code (validate_raw raw idx) = upper (strip (raw_state_code raw))"
  by (simp add: validate_raw_def split: prod.splits)

text \<open>
  C10. A month text that, stripped, is four digits, a slash or hyphen, and any two
  digits is accepted by \<^verbatim>\<open>_normalize_date\<close> and returned with a hyphen; a record
  with such a month that \<^verbatim>\<open>_validate_row\<close> keeps has that canonical month and no
  \<^verbatim>\<open>unparseable_date\<close> flag, and is publishable exactly when its state code is
  known and its rate is present and from 0 up to but excluding 100, whatever the two
  month digits are.
\<close>

theorem out_of_range_month_accepted:
  assumes digits: "list_all is_digit [a, b, c, d, e, f]"
    and sep: "sep = CHR ''/'' \<or> sep = CHR ''-''"
    and stripped: "strip month = [a, b, c, d, sep, e, f]"
  shows "normalize_date month = Some [a, b, c, d, CHR ''-'', e, f]
     \<and> (\<forall>rec cell idx row.
           rec ''month'' = Some cell \<and> py_str cell = month \<and> validate_row rec idx = Some row \<longrightarrow>
           month_canonical row = [a, b, c, d, CHR ''-'', e, f]
           \<and> (\<forall>s. UnparseableDate s \<notin> set (qa_flags row))
           \<and> (is_publishable row \<longleftrightarrow>
                get_state_by_code (state_code row) \<noteq> None
                \<and> (\<exists>r. unemployment_rate row = Some r \<and> 0 \<le> r \<and> r < 100)))"
proof (intro conjI allI impI)
  show "normalize_date month = Some [a, b, c, d, CHR ''-'', e, f]"
    using validate_raw_month_ok [OF digits sep stripped] by (rule conjunct1)
next
  fix rec :: raw_dict and cell :: cell and idx :: int and row :: ValidatedRow
  assume a: "rec ''month'' = Some cell \<and> py_str cell = month \<and> validate_row rec idx = Some row"
  then obtain raw where raw: "RawRow_of rec = Some raw" and row: "row = validate_raw raw idx"
    by (auto simp: validate_row_def split: option.splits)
  from raw a have m: "raw_month raw = [a, b, c, d, sep, e, f]"
    by (simp add: RawRow_of_month stripped)
  from digits have "strip (a # [b, c, d, sep, e] @ [f]) = a # [b, c, d, sep, e] @ [f]"
    by (intro strip_date_text) simp_all
  then have st: "strip [a, b, c, d, sep, e, f] = [a, b, c, d, sep, e, f]"
    by simp
  from validate_raw_month_ok [OF digits sep st] m
  have ok: "month_canonical (validate_raw raw idx) = [a, b, c, d, CHR ''-'', e, f]
           \<and> (\<forall>s. UnparseableDate s \<notin> set (qa_flags (validate_raw raw idx)))
           \<and> (is_publishable (validate_raw raw idx) \<longleftrightarrow>
                get_state_by_code (upper (strip (raw_state_code raw))) \<noteq> None
                \<and> (\<exists>r. raw_unemployment_rate raw = Some r \<and> 0 \<le> r \<and> r < 100))"
    by simp
  from ok show "month_canonical row = [a, b, c, d, CHR ''-'', e, f]"
    by (simp add: row)
  from ok show "UnparseableDate s \<notin> set (qa_flags row)" for s
    by (simp add: row)
  from ok show "is_publishable row \<longleftrightarrow>
                get_state_by_code (state_code row) \<noteq> None
                \<and> (\<exists>r. unemployment_rate row = Some r \<and> 0 \<le> r \<and> r < 100)"
    by (simp add: row validate_raw_state_code validate_raw_fields(3))
qed

lemma strip_2025_13: "strip '' 2025/13 '' = ''2025/13''"
  by (simp add: strip_def is_space_def)

theorem out_of_range_month_accepted_witness:
  "normalize_date '' 2025/13 '' = Some ''2025-13''
   \<and> (\<exists>row. validate_row (al_record (CStr '' 2025/13 '') (CNum 4.5 ''4.5'')) 2 = Some row
          \<and> month_canonical row = ''2025-13'' \<and> is_publishable row
          \<and> UnparseableDate ''2025/13'' \<notin> set (qa_flags row))"
proof -
  let ?rec = "al_record (CStr '' 2025/13 '') (CNum 4.5 ''4.5'')"
  have digits: "list_all is_digit ''202513''"
    by (simp add: is_digit_def)
  have sep: "CHR ''/'' = CHR ''/'' \<or> CHR ''/'' = CHR ''-''"
    by simp
  note inst = out_of_range_month_accepted [OF digits sep strip_2025_13]
  have raw: "RawRow_of ?rec = Some (al_raw ''2025/13'' (Some 4.5))"
    by (simp add: RawRow_of_al_record strip_2025_13)
  then have v: "validate_row ?rec 2 = Some (validate_raw (al_raw ''2025/13'' (Some 4.5)) 2)"
    by (simp add: validate_row_def)
  let ?row = "validate_raw (al_raw ''2025/13'' (Some 4.5)) 2"
  have cell: "?rec ''month'' = Some (CStr '' 2025/13 '')" "py_str (CStr '' 2025/13 '') = '' 2025/13 ''"
    by (simp_all add: al_record_def py_str_def)
  from inst cell v
  have row: "month_canonical ?row = ''2025-13''" "UnparseableDate ''2025/13'' \<notin> set (qa_flags ?row)"
    "is_publishable ?row \<longleftrightarrow>
       get_state_by_code (state_code ?row) \<noteq> None
       \<and> (\<exists>r. unemployment_rate ?row = Some r \<and> 0 \<le> r \<and> r < 100)"
    by blast+
  have known: "get_state_by_code (state_code ?row) \<noteq> None"
    by (simp add: validate_raw_state_code al_raw_def strip_AL get_state_by_code_AL)
  have "\<exists>r. unemployment_rate ?row = Some r \<and> 0 \<le> r \<and> r < 100"
    by (rule exI [of _ "4.5"]) (simp add: validate_raw_fields(3) al_raw_def)
  with known row(3) have "is_publishable ?row"
    by blast
  with inst v row(1,2) show ?thesis
    by simp
qed

section \<open>Publishable rows have a rate\<close>

lemma digit_not_sign:
  "is_digit c \<Longrightarrow> c \<noteq> CHR ''-'' \<and> c \<noteq> CHR ''+'' \<and> c \<noteq> CHR ''_''"
  by (auto simp: is_digit_def)

lemma all_digits_strip:
  assumes "list_all is_digit ds"
  shows "strip ds = ds"
proof -
  have d: "dropWhile is_space xs = xs" if "list_all is_digit xs" for xs
    using that by (cases xs) (auto simp: digit_not_space)
  from assms have "list_all is_digit (rev ds)"
    by (simp add: list_all_iff)
  with assms show ?thesis
    by (simp add: strip_def d)
qed

lemma all_digits_int_strip:
  assumes "list_all is_digit ds"
  shows "int_strip ds = ds"
proof -
  have n: "\<not> is_int_space c" if "is_digit c" for c
    using that by (auto simp: is_digit_def is_int_space_def Let_def)
  have d: "dropWhile is_int_space xs = xs" if "list_all is_digit xs" for xs
    using that by (cases xs) (auto simp: n)
  from assms have "list_all is_digit (rev ds)"
    by (simp add: list_all_iff)
  with assms show ?thesis
    by (simp add: int_strip_def d)
qed

lemma all_digits_valid_body:
  "list_all is_digit ds \<Longrightarrow> ds \<noteq> [] \<Longrightarrow> valid_int_body ds"
  by (induction ds rule: valid_int_body.induct) (auto simp: digit_not_sign)

lemma all_digits_no_underscore:
  "list_all is_digit ds \<Longrightarrow> filter (\<lambda>x. x \<noteq> CHR ''_'') ds = ds"
  by (induction ds) (auto simp: digit_not_sign)

lemma py_int_digits:
  assumes "list_all is_digit ds" "ds \<noteq> []"
  shows "py_int ds = Some (int (digits_value ds))"
proof -
  from assms obtain c cs where ds: "ds = c # cs"
    by (cases ds) auto
  with assms have c: "c \<noteq> CHR ''-''" "c \<noteq> CHR ''+''" "c \<noteq> CHR ''_''"
    by (auto simp: digit_not_sign)
  from assms ds have s: "int_strip (c # cs) = c # cs"
    using all_digits_int_strip by blast
  from assms ds have v: "valid_int_body (c # cs)"
    using all_digits_valid_body by blast
  from assms ds have f: "filter (\<lambda>x. x \<noteq> CHR ''_'') cs = cs"
    by (simp add: all_digits_no_underscore)
  show ?thesis
    unfolding ds py_int_def s using c v f by simp
qed

lemma split_on_no_sep:
  "sep \<notin> set xs \<Longrightarrow> split_on sep (xs @ sep # ys) = xs # split_on sep ys"
  by (induction xs) auto

lemma split_on_none: "sep \<notin> set xs \<Longrightarrow> split_on sep xs = [xs]"
  by (induction xs) auto

lemma split_year_month:
  assumes "list_all is_digit ys" "list_all is_digit ms"
  shows "split_on CHR ''-'' (ys @ CHR ''-'' # ms) = [ys, ms]"
proof -
  from assms have "CHR ''-'' \<notin> set ys" "CHR ''-'' \<notin> set ms"
    by (auto simp: list_all_iff dest: digit_not_sign)
  then show ?thesis
    by (simp add: split_on_no_sep split_on_none)
qed

lemma prev_month_date_ok:
  assumes "list_all is_digit ys" "ys \<noteq> []" "list_all is_digit ms" "ms \<noteq> []"
  shows "\<exists>d. prev_month_date (ys @ CHR ''-'' # ms) = Inr d"
  by (simp add: prev_month_date_def split_year_month [OF assms(1,3)]
      py_int_digits [OF assms(1,2)] py_int_digits [OF assms(3,4)] Let_def)

lemma normalize_date_shape:
  assumes "normalize_date raw = Some mc"
  shows "\<exists>ys ms. mc = ys @ CHR ''-'' # ms \<and> list_all is_digit ys \<and> ys \<noteq> []
           \<and> list_all is_digit ms \<and> ms \<noteq> []"
proof -
  from assms obtain g1 g2 where m: "date_pattern_match (strip raw) = Some (g1, g2)"
    and mc: "mc = g1 @ ''-'' @ g2"
    by (auto simp: normalize_date_def split: option.splits)
  from m have "list_all is_digit g1 \<and> g1 \<noteq> [] \<and> list_all is_digit g2 \<and> g2 \<noteq> []"
    by (auto simp: date_pattern_match_def Let_def split: list.splits if_splits)
  with mc show ?thesis
    by auto
qed

lemma validate_raw_month:
  "is_publishable (validate_raw raw idx) \<Longrightarrow>
     normalize_date (raw_month raw) = Some (month_canonical (validate_raw raw idx))"
  by (auto simp: validate_raw_publishable validate_raw_def date_normalization_def
      split: prod.splits option.splits)

lemma validate_raw_ready: "ready (validate_raw raw idx)"
proof (cases "is_publishable (validate_raw raw idx)")
  case False
  then show ?thesis by (simp add: ready_def)
next
  case True
  then have "unemployment_rate (validate_raw raw idx) \<noteq> None"
    by (auto simp: validate_raw_publishable validate_raw_fields(3))
  moreover from normalize_date_shape [OF validate_raw_month [OF True]]
  have "\<exists>d. prev_month_date (month_canonical (validate_raw raw idx)) = Inr d"
    using prev_month_date_ok by metis
  ultimately show ?thesis
    by (simp add: ready_def)
qed

lemma validate_all_ready: "\<forall>r \<in> set (validate_all i recs). ready r"
  by (induction recs arbitrary: i)
     (auto simp: validate_row_def validate_raw_ready split: option.splits)

lemma check_row_conflict_ready: "ready r \<Longrightarrow> ready (check_row_conflict cl r)"
  by (auto simp: ready_def check_row_conflict_def split: option.splits)

lemma flag_imputed_ready: "ready r \<Longrightarrow> ready (flag_imputed w r)"
  by (auto simp: ready_def flag_imputed_def split: sum.splits)

lemma run_validation_rows_ready: "\<forall>r \<in> set (run_validation_rows recs). ready r"
  using validate_all_ready [of 2 recs]
  by (auto simp: run_validation_rows_def check_prev_month_imputed_def check_rate_conflicts_def
      intro!: flag_imputed_ready check_row_conflict_ready)

lemma pivot_row_ready:
  assumes "ready r" "is_publishable r"
  shows "\<exists>v p ps. unemployment_rate r = Some v \<and> pivot_row r ingest = Inr (p # ps)
           \<and> clean_value p = v \<and> clean_date p = month_canonical r @ ''-01''"
  using assms
  by (cases "unemployment_rate_prev_month r") (auto simp: ready_def pivot_row_def Let_def)

lemma pivot_loop_ok:
  "\<forall>r \<in> set rows. \<exists>ps. pivot_row r ingest = Inr ps \<Longrightarrow> \<exists>st'. pivot_loop st rows ingest = Inr st'"
proof (induction rows arbitrary: st)
  case Nil
  show ?case by simp
next
  case (Cons r rows)
  from Cons.prems obtain ps where ps: "pivot_row r ingest = Inr ps"
    by auto
  from Cons.prems have "\<forall>r \<in> set rows. \<exists>ps. pivot_row r ingest = Inr ps"
    by simp
  from Cons.IH [OF this, of "foldl store_point st ps"] ps show ?case
    by simp
qed

lemma dedupe_loop_subset: "set (dedupe_loop k seen rows) \<subseteq> set rows"
  by (induction rows arbitrary: seen) auto

text \<open>
  C9. Every row that is publishable after \<^verbatim>\<open>_validate_row\<close> and the two
  reconciliation passes has a current rate. So \<^verbatim>\<open>_pivot_row\<close> does not raise on
  it: it returns the current-month point first, with that rate as its value; and
  \<^verbatim>\<open>run_clean\<close> on the rows of a validation run does not raise.
\<close>

theorem publishable_row_has_rate:
  assumes "r \<in> set (run_validation_rows raw_records)" and "is_publishable r"
  shows "unemployment_rate r \<noteq> None
     \<and> pivot_row r ingest \<noteq> Inl ValidationError
     \<and> (\<exists>v p ps. unemployment_rate r = Some v \<and> pivot_row r ingest = Inr (p # ps)
           \<and> clean_value p = v \<and> clean_date p = month_canonical r @ ''-01'')
     \<and> (\<exists>res. run_clean (run_validation_rows raw_records) ingest = Inr res)"
proof -
  from assms(1) have rdy: "ready r"
    using run_validation_rows_ready by blast
  from pivot_row_ready [OF rdy assms(2), of ingest]
  obtain v p ps where p: "unemployment_rate r = Some v" "pivot_row r ingest = Inr (p # ps)"
    "clean_value p = v" "clean_date p = month_canonical r @ ''-01''"
    by blast
  let ?rows = "sort_key month_canonical
                 (dedupe dedupe_key (filter is_publishable (run_validation_rows raw_records)))"
  have "set ?rows \<subseteq> {x \<in> set (run_validation_rows raw_records). is_publishable x}"
    using dedupe_loop_subset [of dedupe_key "{}" "filter is_publishable (run_validation_rows raw_records)"]
    by (auto simp: dedupe_def)
  then have "\<forall>x \<in> set ?rows. \<exists>ps. pivot_row x ingest = Inr ps"
    using run_validation_rows_ready pivot_row_ready by blast
  from pivot_loop_ok [OF this, of "([], 0)"]
  have "\<exists>res. run_clean (run_validation_rows raw_records) ingest = Inr res"
    by (auto simp: run_clean_def pivot_def Let_def)
  with p show ?thesis
    by auto
qed

lemma run_validation_rows_al: "run_validation_rows al_records = [al_validated]"
  by code_simp

theorem publishable_row_has_rate_witness:
  "al_validated \<in> set (run_validation_rows al_records) \<and> is_publishable al_validated
   \<and> unemployment_rate al_validated \<noteq> None
   \<and> pivot_row al_validated ''2026-01-01T00:00:00'' \<noteq> Inl ValidationError"
proof -
  have m: "al_validated \<in> set (run_validation_rows al_records)"
    by (simp add: run_validation_rows_al)
  have p: "is_publishable al_validated"
    by (simp add: al_validated_def)
  from publishable_row_has_rate [OF m p, of "''2026-01-01T00:00:00''"] m p show ?thesis
    by simp
qed

section \<open>The pivot and the order of its input\<close>

lemma store_point_lookup:
  "fst (store_point st c) = AList.update (point_key c) c (fst st)"
  by (cases st) (simp add: store_point_def point_key_def Let_def)

lemma foldl_store_point_map:
  "map_of (fst (foldl store_point st cs)) =
     map_of (fst st) ++ map_of (rev (map (\<lambda>c. (point_key c, c)) cs))"
proof (induction cs arbitrary: st)
  case Nil
  show ?case by simp
next
  case (Cons c cs)
  show ?case
    by (rule ext)
       (simp add: Cons.IH store_point_lookup update_conv' map_add_def split: option.splits)
qed

lemma foldl_store_point_distinct:
  "distinct (map fst (fst st)) \<Longrightarrow> distinct (map fst (fst (foldl store_point st cs)))"
  by (induction cs arbitrary: st) (simp_all add: store_point_lookup distinct_update)

lemma pivot_loop_Inr:
  "pivot_loop st rows ingest = Inr st' \<Longrightarrow> st' = foldl store_point st (points_of rows ingest)"
proof (induction rows arbitrary: st)
  case Nil
  then show ?case by (simp add: points_of_def)
next
  case (Cons r rows)
  from Cons.prems obtain cs where cs: "pivot_row r ingest = Inr cs"
    and rest: "pivot_loop (foldl store_point st cs) rows ingest = Inr st'"
    by (auto split: sum.splits)
  from Cons.IH [OF rest] cs show ?case
    by (simp add: points_of_def)
qed

lemma pivot_loop_Inr_all:
  "pivot_loop st rows ingest = Inr st' \<Longrightarrow> \<forall>r \<in> set rows. \<exists>ps. pivot_row r ingest = Inr ps"
proof (induction rows arbitrary: st)
  case Nil
  show ?case by simp
next
  case (Cons r rows)
  from Cons.prems obtain cs where cs: "pivot_row r ingest = Inr cs"
    and rest: "pivot_loop (foldl store_point st cs) rows ingest = Inr st'"
    by (auto split: sum.splits)
  from Cons.IH [OF rest] cs show ?case
    by simp
qed

lemma map_of_only_key:
  "map_of (map (\<lambda>c. (f c, c)) cs) k = map_of (map (\<lambda>c. (f c, c)) (filter (\<lambda>c. f c = k) cs)) k"
  by (induction cs) auto

lemma pivot_row_state_code:
  "pivot_row r ingest = Inr cs \<Longrightarrow> \<forall>c \<in> set cs. clean_state_code c = state_code r"
  by (auto simp: pivot_row_def Let_def split: option.splits sum.splits)

lemma points_of_state:
  "filter (\<lambda>c. point_key c = (s, d)) (points_of rows ingest) =
   filter (\<lambda>c. point_key c = (s, d)) (points_of (filter (\<lambda>r. state_code r = s) rows) ingest)"
proof (induction rows)
  case Nil
  show ?case by simp
next
  case (Cons r rows)
  have "filter (\<lambda>c. point_key c = (s, d)) cs = []"
    if "pivot_row r ingest = Inr cs" "state_code r \<noteq> s" for cs
    using pivot_row_state_code [OF that(1)] that(2) by (auto simp: point_key_def filter_empty_conv)
  with Cons.IH show ?case
    by (auto simp: points_of_def split: sum.splits)
qed

lemma filter_same_key:
  "distinct (map f zs) \<Longrightarrow> k \<in> set zs \<Longrightarrow> filter (\<lambda>x. f k = f x) zs = [k]"
proof (induction zs)
  case Nil
  then show ?case by simp
next
  case (Cons z zs)
  show ?case
  proof (cases "k = z")
    case True
    with Cons.prems have "filter (\<lambda>x. f k = f x) zs = []"
      by (auto simp: filter_empty_conv)
    with True show ?thesis by simp
  next
    case False
    with Cons.prems have "f k \<noteq> f z" "k \<in> set zs" "distinct (map f zs)"
      by (auto simp: image_iff)
    with Cons.IH show ?thesis by simp
  qed
qed

lemma sort_key_unique:
  assumes "mset xs = mset ys" "distinct (map f xs)"
  shows "sort_key f xs = sort_key f ys"
proof (rule properties_for_sort_key)
  show "mset (sort_key f ys) = mset xs"
    using assms(1) by simp
  show "sorted (map f (sort_key f ys))"
    by simp
  fix k assume "k \<in> set (sort_key f ys)"
  then have ky: "k \<in> set ys"
    by simp
  with assms(1) have kx: "k \<in> set xs"
    using mset_eq_setD by blast
  from assms(1) have "mset (map f xs) = mset (map f ys)"
    by simp
  then have "distinct (map f xs) \<longleftrightarrow> distinct (map f ys)"
    by (rule mset_eq_imp_distinct_iff)
  with assms(2) have dy: "distinct (map f ys)"
    by simp
  have "filter (\<lambda>x. f k = f x) (sort_key f ys) = sort_key f (filter (\<lambda>x. f k = f x) ys)"
    by (rule filter_sort)
  also have "\<dots> = sort_key f [k]"
    by (simp only: filter_same_key [OF dy ky])
  also have "\<dots> = [k]"
    by simp
  also have "\<dots> = filter (\<lambda>x. f k = f x) xs"
    by (simp only: filter_same_key [OF assms(2) kx])
  finally show "filter (\<lambda>x. f k = f x) (sort_key f ys) = filter (\<lambda>x. f k = f x) xs" .
qed

lemma distinct_pair_filter:
  "distinct (map (\<lambda>r. (g r, f r)) xs) \<Longrightarrow> distinct (map f (filter (\<lambda>r. g r = s) xs))"
proof (induction xs)
  case Nil
  show ?case by simp
next
  case (Cons r xs)
  from Cons.prems have d: "distinct (map (\<lambda>r. (g r, f r)) xs)"
    and notin: "(g r, f r) \<notin> (\<lambda>r. (g r, f r)) ` set xs"
    by simp_all
  have n: "f x \<noteq> f r" if "x \<in> set xs" "g x = g r" for x
  proof
    assume "f x = f r"
    with that(2) have "(g r, f r) = (g x, f x)"
      by simp
    with that(1) have "(g r, f r) \<in> (\<lambda>r. (g r, f r)) ` set xs"
      by (rule image_eqI [rotated])
    with notin show False ..
  qed
  show ?case
  proof (cases "g r = s")
    case False
    with Cons.IH [OF d] show ?thesis by simp
  next
    case True
    have "f r \<notin> f ` set (filter (\<lambda>r. g r = s) xs)"
    proof
      assume "f r \<in> f ` set (filter (\<lambda>r. g r = s) xs)"
      then obtain x where "x \<in> set xs" "g x = s" "f r = f x"
        by auto
      with n [of x] True show False
        by simp
    qed
    with True Cons.IH [OF d] show ?thesis by simp
  qed
qed

lemma pivot_lookup_at_key:
  assumes "pivot rows ingest = Inr (lookup, n)"
  shows "map_of lookup (s, d) =
           map_of (rev (map (\<lambda>c. (point_key c, c))
                     (filter (\<lambda>c. point_key c = (s, d))
                        (points_of (sort_key month_canonical (filter (\<lambda>r. state_code r = s) rows))
                           ingest))))
             (s, d)"
proof -
  let ?S = "sort_key month_canonical rows"
  from assms have "(lookup, n) = foldl store_point ([], 0) (points_of ?S ingest)"
    unfolding pivot_def by (rule pivot_loop_Inr)
  then have "lookup = fst (foldl store_point ([], 0) (points_of ?S ingest))"
    by (metis fst_conv)
  then have "map_of lookup = map_of (rev (map (\<lambda>c. (point_key c, c)) (points_of ?S ingest)))"
    by (simp add: foldl_store_point_map)
  then have "map_of lookup (s, d) =
      map_of (map (\<lambda>c. (point_key c, c)) (rev (points_of ?S ingest))) (s, d)"
    by (simp add: rev_map)
  also have "\<dots> = map_of (map (\<lambda>c. (point_key c, c))
                      (filter (\<lambda>c. point_key c = (s, d)) (rev (points_of ?S ingest)))) (s, d)"
    by (rule map_of_only_key)
  also have "filter (\<lambda>c. point_key c = (s, d)) (rev (points_of ?S ingest)) =
             rev (filter (\<lambda>c. point_key c = (s, d)) (points_of ?S ingest))"
    by (simp add: rev_filter)
  also have "filter (\<lambda>c. point_key c = (s, d)) (points_of ?S ingest) =
             filter (\<lambda>c. point_key c = (s, d))
               (points_of (filter (\<lambda>r. state_code r = s) ?S) ingest)"
    by (rule points_of_state)
  also have "filter (\<lambda>r. state_code r = s) ?S =
             sort_key month_canonical (filter (\<lambda>r. state_code r = s) rows)"
    by (rule filter_sort)
  finally show ?thesis
    by (simp add: rev_map)
qed

lemma pivot_lookup_distinct:
  assumes "pivot rows ingest = Inr (lookup, n)"
  shows "distinct (map fst lookup)"
proof -
  from assms
  have "(lookup, n) = foldl store_point ([], 0)
                        (points_of (sort_key month_canonical rows) ingest)"
    unfolding pivot_def by (rule pivot_loop_Inr)
  then have "lookup = fst (foldl store_point ([], 0)
                        (points_of (sort_key month_canonical rows) ingest))"
    by (metis fst_conv)
  then show ?thesis
    by (simp add: foldl_store_point_distinct)
qed

text \<open>
  C6 (amended). For every list of rows with at most one row per
  (\<^verbatim>\<open>state_code\<close>, \<^verbatim>\<open>month_canonical\<close>) and every permutation of it: if the
  pivot (stable sort by month, then last write wins per (\<^verbatim>\<open>state_code\<close>,
  \<^verbatim>\<open>date\<close>)) succeeds on the list, it succeeds on the permutation, and the two
  results hold the same set of long-format rows, hence the same set of
  (\<^verbatim>\<open>state_code\<close>, \<^verbatim>\<open>date\<close>, \<^verbatim>\<open>value\<close>) points.
\<close>

theorem pivot_order_independent:
  assumes perm: "mset xs = mset ys"
    and one_per_month: "distinct (map (\<lambda>r. (state_code r, month_canonical r)) xs)"
    and ok: "pivot xs ingest = Inr (lookup, n)"
  shows "\<exists>lookup' n'. pivot ys ingest = Inr (lookup', n')
           \<and> set (map snd lookup') = set (map snd lookup)
           \<and> point_of ` set (map snd lookup') = point_of ` set (map snd lookup)"
proof -
  from ok have "\<forall>r \<in> set (sort_key month_canonical xs). \<exists>ps. pivot_row r ingest = Inr ps"
    unfolding pivot_def by (rule pivot_loop_Inr_all)
  moreover from perm have "set xs = set ys"
    by (rule mset_eq_setD)
  ultimately have "\<forall>r \<in> set (sort_key month_canonical ys). \<exists>ps. pivot_row r ingest = Inr ps"
    by simp
  from pivot_loop_ok [OF this, of "([], 0)"]
  obtain lookup' n' where ok': "pivot ys ingest = Inr (lookup', n')"
    unfolding pivot_def by (metis surj_pair)
  have same: "map_of lookup' k = map_of lookup k" for k
  proof -
    obtain s d where k: "k = (s, d)"
      by (cases k)
    from perm have "mset (filter (\<lambda>r. state_code r = s) xs) = mset (filter (\<lambda>r. state_code r = s) ys)"
      by simp
    moreover from one_per_month
    have "distinct (map month_canonical (filter (\<lambda>r. state_code r = s) xs))"
      by (rule distinct_pair_filter)
    ultimately have "sort_key month_canonical (filter (\<lambda>r. state_code r = s) xs) =
                     sort_key month_canonical (filter (\<lambda>r. state_code r = s) ys)"
      by (rule sort_key_unique)
    then show ?thesis
      unfolding k pivot_lookup_at_key [OF ok] pivot_lookup_at_key [OF ok'] by simp
  qed
  then have "map_of lookup' = map_of lookup"
    by (rule ext)
  then have "ran (map_of lookup') = ran (map_of lookup)"
    by simp
  then have "snd ` set lookup' = snd ` set lookup"
    by (simp only: ran_distinct [OF pivot_lookup_distinct [OF ok]]
        ran_distinct [OF pivot_lookup_distinct [OF ok']])
  then have "set (map snd lookup') = set (map snd lookup)"
    by simp
  with ok' show ?thesis
    by simp
qed

text \<open>
  C6 as stated fails for two publishable rows of one state and one month that differ in
  their current rate: the list is deduplicated, the stable sort keeps the input order of
  the two, and the later one wins. The list and its reverse give different points.
\<close>

theorem same_month_order_counterexample:
  "dedupe dedupe_key same_month_rows = same_month_rows
   \<and> list_all is_publishable same_month_rows
   \<and> mset (rev same_month_rows) = mset same_month_rows
   \<and> pivot same_month_rows ''ts'' =
        Inr ([((''AL'', ''2025-12-01''), mk_point ''AL'' ''2025-12-01'' 4.7 3)], 1)
   \<and> pivot (rev same_month_rows) ''ts'' =
        Inr ([((''AL'', ''2025-12-01''), mk_point ''AL'' ''2025-12-01'' 4.6 2)], 1)
   \<and> point_of (mk_point ''AL'' ''2025-12-01'' 4.7 3) = (''AL'', ''2025-12-01'', 4.7)
   \<and> point_of (mk_point ''AL'' ''2025-12-01'' 4.6 2) = (''AL'', ''2025-12-01'', 4.6)"
  by (simp add: same_month_rows_def mk_row_def mk_point_def point_of_def dedupe_def dedupe_key_def
      pivot_def pivot_row_def store_point_def)

lemma pivot_two_state_rows:
  "pivot two_state_rows ''ts'' =
     Inr ([((''AL'', ''2025-12-01''), mk_point ''AL'' ''2025-12-01'' 4.6 2),
           ((''AL'', ''2025-11-01''), mk_point ''AL'' ''2025-11-01'' 4.5 2),
           ((''AK'', ''2025-12-01''), mk_point ''AK'' ''2025-12-01'' 5.8 3),
           ((''AK'', ''2025-11-01''), mk_point ''AK'' ''2025-11-01'' 5.6 3)], 0)"
  by code_simp

theorem pivot_order_independent_witness:
  "\<exists>lookup' n'. pivot (rev two_state_rows) ''ts'' = Inr (lookup', n')
     \<and> point_of ` set (map snd lookup') =
         {(''AL'', ''2025-12-01'', 4.6), (''AL'', ''2025-11-01'', 4.5),
          (''AK'', ''2025-12-01'', 5.8), (''AK'', ''2025-11-01'', 5.6)}"
proof -
  have perm: "mset two_state_rows = mset (rev two_state_rows)"
    by simp
  have one: "distinct (map (\<lambda>r. (state_code r, month_canonical r)) two_state_rows)"
    by (simp add: two_state_rows_def mk_row_def)
  from pivot_order_independent [OF perm one pivot_two_state_rows]
  obtain lookup' n' where p: "pivot (rev two_state_rows) ''ts'' = Inr (lookup', n')"
    and s: "point_of ` set (map snd lookup') =
            point_of ` set (map snd
              [((''AL'', ''2025-12-01''), mk_point ''AL'' ''2025-12-01'' 4.6 2),
               ((''AL'', ''2025-11-01''), mk_point ''AL'' ''2025-11-01'' 4.5 2),
               ((''AK'', ''2025-12-01''), mk_point ''AK'' ''2025-12-01'' 5.8 3),
               ((''AK'', ''2025-11-01''), mk_point ''AK'' ''2025-11-01'' 5.6 3)])"
    by blast
  from s have "point_of ` set (map snd lookup') =
         {(''AL'', ''2025-12-01'', 4.6), (''AL'', ''2025-11-01'', 4.5),
          (''AK'', ''2025-12-01'', 5.8), (''AK'', ''2025-11-01'', 5.6)}"
    by (simp add: mk_point_def point_of_def)
  with p show ?thesis
    by blast
qed

section \<open>Revision precedence\<close>

lemma digit_cases:
  "(d :: nat) < 10 \<Longrightarrow>
     d = 0 \<or> d = 1 \<or> d = 2 \<or> d = 3 \<or> d = 4 \<or> d = 5 \<or> d = 6 \<or> d = 7 \<or> d = 8 \<or> d = 9"
  by arith

lemma of_char_digit_char: "d < 10 \<Longrightarrow> of_char (digit_char d) = 48 + d"
  by (drule digit_cases) (elim disjE, simp_all add: digit_char_def)

lemma digit_char_is_digit: "d < 10 \<Longrightarrow> is_digit (digit_char d)"
  by (simp add: is_digit_def of_char_digit_char)

lemma nat_str_digits: "list_all is_digit (nat_str n) \<and> nat_str n \<noteq> []"
proof (induction n rule: nat_str.induct)
  case (1 n)
  show ?case
  proof (cases "n < 10")
    case True
    then show ?thesis
      by (simp add: nat_str.simps [of n] digit_char_is_digit)
  next
    case False
    with "1.IH" show ?thesis
      by (simp add: nat_str.simps [of n] digit_char_is_digit)
  qed
qed

lemma digits_value_snoc:
  "digits_value (ds @ [c]) = 10 * digits_value ds + (of_char c - 48)"
  by (simp add: digits_value_def)

lemma digits_value_nat_str: "digits_value (nat_str n) = n"
proof (induction n rule: nat_str.induct)
  case (1 n)
  show ?case
  proof (cases "n < 10")
    case True
    then show ?thesis
      by (simp add: nat_str.simps [of n] digits_value_def of_char_digit_char)
  next
    case False
    with "1.IH" show ?thesis
      by (simp add: nat_str.simps [of n] digits_value_snoc of_char_digit_char)
  qed
qed

lemma digits_value_leading_zero: "digits_value (CHR ''0'' # ds) = digits_value ds"
  by (simp add: digits_value_def)

lemma py_int_nat_str: "py_int (nat_str n) = Some (int n)"
proof -
  from nat_str_digits [of n] have "py_int (nat_str n) = Some (int (digits_value (nat_str n)))"
    by (intro py_int_digits) simp_all
  then show ?thesis
    by (simp only: digits_value_nat_str)
qed

lemma py_int_py_str_int: "0 \<le> y \<Longrightarrow> py_int (py_str_int y) = Some y"
  by (simp add: py_str_int_def py_int_nat_str)

lemma fmt_02d_digits: "0 \<le> m \<Longrightarrow> list_all is_digit (fmt_02d m) \<and> fmt_02d m \<noteq> []"
  using nat_str_digits [of "nat m"]
  by (simp add: fmt_02d_def py_str_int_def is_digit_def)

lemma py_int_fmt_02d: "0 \<le> m \<Longrightarrow> py_int (fmt_02d m) = Some m"
proof -
  assume m: "0 \<le> m"
  from fmt_02d_digits [OF m] have "py_int (fmt_02d m) = Some (int (digits_value (fmt_02d m)))"
    by (intro py_int_digits) simp_all
  also from m have "digits_value (fmt_02d m) = nat m"
    by (simp add: fmt_02d_def py_str_int_def digits_value_leading_zero digits_value_nat_str)
  finally show ?thesis
    using m by simp
qed

lemma parse_month_str:
  assumes "0 \<le> y" "0 \<le> m"
  shows "map py_int (split_on CHR ''-'' (month_str y m)) = [Some y, Some m]"
proof -
  from assms(1) have "list_all is_digit (py_str_int y)"
    using nat_str_digits [of "nat y"] by (simp add: py_str_int_def)
  with fmt_02d_digits [OF assms(2)]
  have "split_on CHR ''-'' (month_str y m) = [py_str_int y, fmt_02d m]"
    by (simp add: month_str_def split_year_month)
  with assms show ?thesis
    by (simp add: py_int_py_str_int py_int_fmt_02d)
qed

lemma month_str_inj:
  assumes "0 \<le> y" "0 \<le> m" "0 \<le> y'" "0 \<le> m'" "month_str y m = month_str y' m'"
  shows "y = y' \<and> m = m'"
proof -
  from assms(5)
  have "map py_int (split_on CHR ''-'' (month_str y m)) =
        map py_int (split_on CHR ''-'' (month_str y' m'))"
    by (rule arg_cong)
  then have "[Some y, Some m] = [Some y', Some m']"
    by (simp only: parse_month_str [OF assms(1,2)] parse_month_str [OF assms(3,4)])
  then show ?thesis
    by simp
qed

lemma prev_month_date_month_str:
  assumes "0 \<le> y" "0 \<le> m"
  shows "prev_month_date (month_str y m) =
           Inr (month_str (if m = 1 then y - 1 else y) (if m = 1 then 12 else m - 1) @ ''-01'')"
  unfolding prev_month_date_def parse_month_str [OF assms]
  by (simp add: month_str_def)


lemma append_less_same_prefix: "xs @ a < xs @ b \<longleftrightarrow> a < b" for a b :: string
  by (induction xs) simp_all

lemma less_append_same_length:
  "length xs = length ys \<Longrightarrow> xs < ys \<Longrightarrow> xs @ s < ys @ t" for xs ys :: string
  by (induction xs ys rule: list_induct2) auto

lemma digit_char_less: "a < b \<Longrightarrow> b < 10 \<Longrightarrow> digit_char a < digit_char b"
  by (simp add: less_char_def of_char_digit_char)

lemma length_nat_str_one: "length (nat_str n) = 1 \<longleftrightarrow> n < 10"
proof (cases "n < 10")
  case True
  then show ?thesis by (simp add: nat_str.simps [of n])
next
  case False
  moreover from nat_str_digits [of "n div 10"] have "length (nat_str (n div 10)) \<noteq> 0"
    by simp
  ultimately show ?thesis by (simp add: nat_str.simps [of n])
qed

lemma nat_str_mono:
  "a < b \<Longrightarrow> length (nat_str a) = length (nat_str b) \<Longrightarrow> nat_str a < nat_str b"
proof (induction a arbitrary: b rule: nat_str.induct)
  case (1 a)
  show ?case
  proof (cases "a < 10")
    case True
    then have "length (nat_str a) = 1"
      by (simp only: length_nat_str_one)
    with "1.prems"(2) have "length (nat_str b) = 1"
      by linarith
    then have b: "b < 10"
      by (simp only: length_nat_str_one)
    with True "1.prems"(1) show ?thesis
      by (simp add: nat_str.simps [of a] nat_str.simps [of b] digit_char_less)
  next
    case False
    with "1.prems"(1) have b: "\<not> b < 10"
      by simp
    have sa: "nat_str a = nat_str (a div 10) @ [digit_char (a mod 10)]"
      using False by (simp add: nat_str.simps [of a])
    have sb: "nat_str b = nat_str (b div 10) @ [digit_char (b mod 10)]"
      using b by (simp add: nat_str.simps [of b])
    from "1.prems"(2) have len: "length (nat_str (a div 10)) = length (nat_str (b div 10))"
      by (simp add: sa sb)
    show ?thesis
    proof (cases "a div 10 < b div 10")
      case True
      from "1.IH" [OF False True len] have "nat_str (a div 10) < nat_str (b div 10)" .
      with len show ?thesis
        unfolding sa sb by (rule less_append_same_length)
    next
      case False
      from "1.prems"(1) have "a div 10 \<le> b div 10"
        by (intro div_le_mono) simp
      with False have eq: "a div 10 = b div 10"
        by simp
      from div_mult_mod_eq [of a 10] div_mult_mod_eq [of b 10] eq "1.prems"(1)
      have lt: "a mod 10 < b mod 10"
        by linarith
      have "digit_char (a mod 10) < digit_char (b mod 10)"
        using lt by (rule digit_char_less) simp
      then show ?thesis
        unfolding sa sb eq by (simp add: append_less_same_prefix)
    qed
  qed
qed

lemma length_nat_str_4:
  assumes "1000 \<le> n" "n \<le> 9999"
  shows "length (nat_str n) = 4"
proof -
  from assms(1) have l1: "1000 div 10 \<le> n div 10"
    by (rule div_le_mono)
  then have l2: "1000 div 10 div 10 \<le> n div 10 div 10"
    by (rule div_le_mono)
  from assms(2) have u1: "n div 10 \<le> 9999 div 10"
    by (rule div_le_mono)
  then have u2: "n div 10 div 10 \<le> 9999 div 10 div 10"
    by (rule div_le_mono)
  then have u3: "n div 10 div 10 div 10 \<le> 9999 div 10 div 10 div 10"
    by (rule div_le_mono)
  from assms(1) l1 l2 u3
  have "\<not> n < 10" "\<not> n div 10 < 10" "\<not> n div 10 div 10 < 10" "n div 10 div 10 div 10 < 10"
    by simp_all
  then show ?thesis
    by (simp add: nat_str.simps [of n] nat_str.simps [of "n div 10"]
        nat_str.simps [of "n div 10 div 10"] nat_str.simps [of "n div 10 div 10 div 10"])
qed

lemma month_cases:
  "1 \<le> m \<Longrightarrow> m \<le> (11 :: int) \<Longrightarrow>
     m = 1 \<or> m = 2 \<or> m = 3 \<or> m = 4 \<or> m = 5 \<or> m = 6 \<or> m = 7 \<or> m = 8 \<or> m = 9
     \<or> m = 10 \<or> m = 11"
  by arith

lemma fmt_02d_succ_less: "1 \<le> m \<Longrightarrow> m \<le> 11 \<Longrightarrow> fmt_02d m < fmt_02d (m + 1)"
  by (drule (1) month_cases)
     (elim disjE, simp_all add: fmt_02d_def py_str_int_def nat_str.simps digit_char_def)

lemma month_str_succ_less:
  assumes "1000 \<le> y" "y \<le> 9999" "1 \<le> m" "m \<le> 12" "(y, m) \<noteq> (9999, 12)"
  shows "month_str y m < month_str (if m = 12 then y + 1 else y) (if m = 12 then 1 else m + 1)"
proof (cases "m = 12")
  case False
  with assms have "fmt_02d m < fmt_02d (m + 1)"
    by (intro fmt_02d_succ_less) simp_all
  then have "(py_str_int y @ ''-'') @ fmt_02d m < (py_str_int y @ ''-'') @ fmt_02d (m + 1)"
    by (simp only: append_less_same_prefix)
  with False show ?thesis
    by (simp add: month_str_def)
next
  case True
  with assms have y: "y < 9999"
    by simp
  from assms(1) y have len: "length (nat_str (nat y)) = length (nat_str (nat (y + 1)))"
    by (simp add: length_nat_str_4)
  from assms(1) have "nat y < nat (y + 1)"
    by simp
  from nat_str_mono [OF this len]
  have "nat_str (nat y) @ (''-'' @ fmt_02d 12) < nat_str (nat (y + 1)) @ (''-'' @ fmt_02d 1)"
    using len by (intro less_append_same_length)
  with True assms(1) show ?thesis
    by (simp add: month_str_def py_str_int_def)
qed

lemma month_facts:
  assumes "1000 \<le> y" "y \<le> 9999" "1 \<le> m" "m \<le> 12" "(y, m) \<noteq> (9999, 12)"
  shows "month_str y m < month_after y m"
    and "month_before y m \<noteq> month_str y m"
    and "month_before y m \<noteq> month_after y m"
    and "prev_month_date (month_str y m) = Inr (month_before y m @ ''-01'')"
    and "prev_month_date (month_after y m) = Inr (month_str y m @ ''-01'')"
proof -
  show "month_str y m < month_after y m"
    using month_str_succ_less [OF assms] by (cases "m = 12") (simp_all add: month_after_def)
  have inj: "month_str a b = month_str c d \<Longrightarrow> a = c \<and> b = d"
    if "0 \<le> a" "0 \<le> b" "0 \<le> c" "0 \<le> d" for a b c d
    using that by (rule month_str_inj)
  show "month_before y m \<noteq> month_str y m"
    using assms inj [of "y - 1" 12 y m] inj [of y "m - 1" y m]
    by (auto simp: month_before_def)
  show "month_before y m \<noteq> month_after y m"
    using assms inj [of "y - 1" 12 "y + 1" 1] inj [of "y - 1" 12 y "m + 1"]
      inj [of y "m - 1" "y + 1" 1] inj [of y "m - 1" y "m + 1"]
    by (auto simp: month_before_def month_after_def)
  from assms show "prev_month_date (month_str y m) = Inr (month_before y m @ ''-01'')"
    by (simp add: prev_month_date_month_str month_before_def)
  from assms show "prev_month_date (month_after y m) = Inr (month_str y m @ ''-01'')"
    by (simp add: prev_month_date_month_str month_after_def)
qed


lemma length_four:
  assumes "length xs = 4"
  obtains a b c d where "xs = [a, b, c, d]"
proof -
  from assms obtain a xs1 where 1: "xs = a # xs1" "length xs1 = 3"
    by (cases xs) auto
  then obtain b xs2 where 2: "xs1 = b # xs2" "length xs2 = 2"
    by (cases xs1) auto
  then obtain c xs3 where 3: "xs2 = c # xs3" "length xs3 = 1"
    by (cases xs2) auto
  then obtain d where 4: "xs3 = [d]"
    by (cases xs3) auto
  from 1 2 3 4 that show thesis
    by simp
qed

lemma month_str_canonical:
  assumes "1000 \<le> y" "y \<le> 9999" "1 \<le> m" "m \<le> 12"
  shows "normalize_date (month_str y m) = Some (month_str y m)"
proof -
  from assms have "length (nat_str (nat y)) = 4"
    by (intro length_nat_str_4) simp_all
  then obtain a b c d where y: "nat_str (nat y) = [a, b, c, d]"
    by (rule length_four)
  with nat_str_digits [of "nat y"] have dy: "list_all is_digit [a, b, c, d]"
    by simp
  from assms(3,4) have "m = 12 \<or> (1 \<le> m \<and> m \<le> 11)"
    by arith
  then have "\<exists>e f. fmt_02d m = [e, f]"
    by (auto dest!: month_cases simp: fmt_02d_def py_str_int_def nat_str.simps)
  then obtain e f where m: "fmt_02d m = [e, f]"
    by blast
  with fmt_02d_digits [of m] assms(3) have dm: "list_all is_digit [e, f]"
    by simp
  from assms(1) have s: "month_str y m = [a, b, c, d, CHR ''-'', e, f]"
    by (simp add: month_str_def py_str_int_def y m)
  from dy dm have "strip [a, b, c, d, CHR ''-'', e, f] = [a, b, c, d, CHR ''-'', e, f]"
    using strip_date_text [of a f "[b, c, d, CHR ''-'', e]"] by simp
  with dy dm show ?thesis
    unfolding s by (simp add: normalize_date_def date_pattern_match_def)
qed

lemma sort_two:
  assumes "f a < f b"
  shows "sort_key f [a, b] = [a, b]" and "sort_key f [b, a] = [a, b]"
  using assms by (auto dest: leD)

text \<open>
  For a month \<open>M\<close> of a year from 1000 to 9999 whose successor is also in that range the
  revision takes precedence. Let the input of \<^verbatim>\<open>run_clean\<close> hold exactly the
  publishable rows \<open>A\<close> (state \<open>X\<close>, month \<open>M\<close>, current rate 10.0, prior rate 9.0) and
  \<open>B\<close> (state \<open>X\<close>, the month after \<open>M\<close>, current rate 4.6, prior rate 5.0), in either
  order. Then \<^verbatim>\<open>run_clean\<close> returns, counts exactly one revision, and its rows are
  the points \<open>(X, M, 5.0)\<close>, \<open>(X, M - 1, 9.0)\<close> and \<open>(X, M + 1, 4.6)\<close>: the point for
  \<open>M\<close> has the value 5.0, not 10.0. The text of \<open>M\<close> is a canonical month:
  \<^verbatim>\<open>_normalize_date\<close> returns it unchanged.
\<close>

lemma revision_precedence_from_year_1000:
  assumes year: "1000 \<le> y" "y \<le> 9999"
    and month: "1 \<le> m" "m \<le> 12"
    and last: "(y, m) \<noteq> (9999, 12)"
    and A: "A = with_rates a X (month_str y m) 10.0 9.0"
    and B: "B = with_rates b X (month_after y m) 4.6 5.0"
    and rows: "rows = [A, B] \<or> rows = [B, A]"
  shows "normalize_date (month_str y m) = Some (month_str y m)
         \<and> (\<exists>res. run_clean rows ingest = Inr res
               \<and> revisions_applied res = 1
               \<and> map point_of (final_rows res) =
                   [(X, month_str y m @ ''-01'', 5.0),
                    (X, month_before y m @ ''-01'', 9.0),
                    (X, month_after y m @ ''-01'', 4.6)])"
proof -
  note mf = month_facts [OF year month last]
  have fields: "state_code A = X" "month_canonical A = month_str y m"
    "unemployment_rate A = Some 10.0" "unemployment_rate_prev_month A = Some 9.0"
    "is_publishable A"
    "state_code B = X" "month_canonical B = month_after y m"
    "unemployment_rate B = Some 4.6" "unemployment_rate_prev_month B = Some 5.0"
    "is_publishable B"
    by (simp_all add: A B with_rates_def)
  from mf(1) have ne: "month_str y m \<noteq> month_after y m" "month_after y m \<noteq> month_str y m"
    by simp_all
  have keys: "dedupe_key A \<noteq> dedupe_key B" "dedupe_key B \<noteq> dedupe_key A"
    by (simp_all add: dedupe_key_def fields ne)
  from rows have sorted_rows:
    "sort_key month_canonical (dedupe dedupe_key (filter is_publishable rows)) = [A, B]"
  proof
    assume "rows = [A, B]"
    then show ?thesis
      by (simp add: fields dedupe_def keys sort_two(1) mf(1) del: sort_key_simps)
  next
    assume "rows = [B, A]"
    then show ?thesis
      by (simp add: fields dedupe_def keys sort_two(2) mf(1) del: sort_key_simps)
  qed
  from rows have len: "length (filter is_publishable rows)
                        - length (dedupe dedupe_key (filter is_publishable rows)) = 0"
    by (auto simp: fields dedupe_def keys)
  define pa1 where "pa1 = \<lparr>clean_state_canonical = state_canonical A, clean_state_code = X,
      clean_date = month_str y m @ ''-01'', clean_value = 10.0, clean_source = source A,
      clean_ingest_run = ingest, clean_source_row_index = source_row_index A\<rparr>"
  define pa2 where "pa2 = \<lparr>clean_state_canonical = state_canonical A, clean_state_code = X,
      clean_date = month_before y m @ ''-01'', clean_value = 9.0, clean_source = source A,
      clean_ingest_run = ingest, clean_source_row_index = source_row_index A\<rparr>"
  define pb1 where "pb1 = \<lparr>clean_state_canonical = state_canonical B, clean_state_code = X,
      clean_date = month_after y m @ ''-01'', clean_value = 4.6, clean_source = source B,
      clean_ingest_run = ingest, clean_source_row_index = source_row_index B\<rparr>"
  define pb2 where "pb2 = \<lparr>clean_state_canonical = state_canonical B, clean_state_code = X,
      clean_date = month_str y m @ ''-01'', clean_value = 5.0, clean_source = source B,
      clean_ingest_run = ingest, clean_source_row_index = source_row_index B\<rparr>"
  have pA: "pivot_row A ingest = Inr [pa1, pa2]"
    by (simp add: pivot_row_def fields mf(4) pa1_def pa2_def)
  have pB: "pivot_row B ingest = Inr [pb1, pb2]"
    by (simp add: pivot_row_def fields mf(5) pb1_def pb2_def)
  have k: "point_key pa1 = (X, month_str y m @ ''-01'')"
    "point_key pa2 = (X, month_before y m @ ''-01'')"
    "point_key pb1 = (X, month_after y m @ ''-01'')"
    "point_key pb2 = (X, month_str y m @ ''-01'')"
    and v: "clean_value pa1 = 10.0" "clean_value pb2 = 5.0"
    by (simp_all add: point_key_def pa1_def pa2_def pb1_def pb2_def)
  have store: "store_point (al, n) c =
      (AList.update (point_key c) c al,
       if (case map_of al (point_key c) of Some old \<Rightarrow> clean_value old \<noteq> clean_value c
           | None \<Rightarrow> False) then n + 1 else n)" for al n c
    by (simp add: store_point_def point_key_def Let_def)
  have s1: "store_point ([], 0) pa1 = ([((X, month_str y m @ ''-01''), pa1)], 0)"
    by (simp add: store k)
  have s2: "store_point ([((X, month_str y m @ ''-01''), pa1)], 0) pa2 =
      ([((X, month_str y m @ ''-01''), pa1), ((X, month_before y m @ ''-01''), pa2)], 0)"
    using mf(2) by (simp add: store k)
  have s3: "store_point
      ([((X, month_str y m @ ''-01''), pa1), ((X, month_before y m @ ''-01''), pa2)], 0) pb1 =
      ([((X, month_str y m @ ''-01''), pa1), ((X, month_before y m @ ''-01''), pa2),
        ((X, month_after y m @ ''-01''), pb1)], 0)"
    using mf(3) ne by (simp add: store k)
  have s4: "store_point
      ([((X, month_str y m @ ''-01''), pa1), ((X, month_before y m @ ''-01''), pa2),
        ((X, month_after y m @ ''-01''), pb1)], 0) pb2 =
      ([((X, month_str y m @ ''-01''), pb2), ((X, month_before y m @ ''-01''), pa2),
        ((X, month_after y m @ ''-01''), pb1)], 1)"
    by (simp add: store k v)
  have "pivot_loop ([], 0) [A, B] ingest =
      Inr ([((X, month_str y m @ ''-01''), pb2), ((X, month_before y m @ ''-01''), pa2),
           ((X, month_after y m @ ''-01''), pb1)], 1)"
    by (simp add: pA pB s1 s2 s3 s4)
  then have "run_clean rows ingest =
      Inr \<lparr>final_rows = [pb2, pa2, pb1], revisions_applied = 1, rows_deduped_input = 0\<rparr>"
    by (simp add: run_clean_def pivot_def sorted_rows len Let_def del: sort_key_simps)
  moreover have "map point_of [pb2, pa2, pb1] =
               [(X, month_str y m @ ''-01'', 5.0),
                (X, month_before y m @ ''-01'', 9.0),
                (X, month_after y m @ ''-01'', 4.6)]"
    by (simp add: point_of_def pa2_def pb1_def pb2_def)
  ultimately have "\<exists>res. run_clean rows ingest = Inr res
               \<and> revisions_applied res = 1
               \<and> map point_of (final_rows res) =
                   [(X, month_str y m @ ''-01'', 5.0),
                    (X, month_before y m @ ''-01'', 9.0),
                    (X, month_after y m @ ''-01'', 4.6)]"
    by simp
  with month_str_canonical [OF year month] show ?thesis
    by (rule conjI)
qed

lemma month_str_2025_11:
  "month_str 2025 11 = ''2025-11''" "month_after 2025 11 = ''2025-12''"
  "month_before 2025 11 = ''2025-10''"
  by (simp_all add: month_str_def month_after_def month_before_def py_str_int_def fmt_02d_def
      nat_str.simps digit_char_def)


lemma revision_precedence_2025_11:
  "\<exists>res. run_clean [dec_row, nov_row] ''ts'' = Inr res
     \<and> revisions_applied res = 1
     \<and> map point_of (final_rows res) =
         [(''AL'', ''2025-11-01'', 5.0), (''AL'', ''2025-10-01'', 9.0),
          (''AL'', ''2025-12-01'', 4.6)]"
proof -
  have A: "nov_row = with_rates nov_row ''AL'' (month_str 2025 11) 10.0 9.0"
    by (simp add: nov_row_def mk_row_def with_rates_def month_str_2025_11)
  have B: "dec_row = with_rates dec_row ''AL'' (month_after 2025 11) 4.6 5.0"
    by (simp add: dec_row_def mk_row_def with_rates_def month_str_2025_11)
  have rows: "[dec_row, nov_row] = [nov_row, dec_row] \<or> [dec_row, nov_row] = [dec_row, nov_row]"
    by simp
  have "(1000 :: int) \<le> 2025" "(2025 :: int) \<le> 9999" "(1 :: int) \<le> 11" "(11 :: int) \<le> 12"
    "(2025 :: int, 11 :: int) \<noteq> (9999, 12)"
    by simp_all
  from revision_precedence_from_year_1000 [OF this A B rows, of "''ts''"] show ?thesis
    by (simp add: month_str_2025_11)
qed

text \<open>
  C1. The claim holds for the years from 1000 on (lemma
  \<open>revision_precedence_from_year_1000\<close>), and the code misses it for a year below 1000.
  \<^verbatim>\<open>_prev_month_date\<close> prints the year without padding, against its docstring
  (\<^verbatim>\<open>'YYYY-MM-DD'\<close>): for row \<open>A\<close> = (AL, \<^verbatim>\<open>0999-11\<close>, 10.0, 9.0) and row \<open>B\<close> =
  (AL, \<^verbatim>\<open>0999-12\<close>, 4.6, 5.0), both months accepted by \<^verbatim>\<open>_normalize_date\<close> and both
  rows left publishable by the two reconciliation passes, the prior-month point of \<open>B\<close>
  is dated \<^verbatim>\<open>999-11-01\<close> and does not meet the key \<^verbatim>\<open>0999-11-01\<close> of \<open>A\<close>. The
  point for (AL, \<^verbatim>\<open>0999-11\<close>) keeps the value 10.0 and no revision is counted.
\<close>

theorem unpadded_year_misses_revision:
  "normalize_date ''0999-11'' = Some ''0999-11''
   \<and> normalize_date ''0999-12'' = Some ''0999-12''
   \<and> check_prev_month_imputed (check_rate_conflicts year_999_rows) = year_999_rows
   \<and> prev_month_date ''0999-12'' = Inr ''999-11-01''
   \<and> run_clean year_999_rows ''ts'' =
        Inr \<lparr>final_rows =
               [mk_point ''AL'' ''0999-11-01'' 10.0 2,
                mk_point ''AL'' ''999-10-01'' 9.0 2,
                mk_point ''AL'' ''0999-12-01'' 4.6 3,
                mk_point ''AL'' ''999-11-01'' 5.0 3],
             revisions_applied = 0, rows_deduped_input = 0\<rparr>"
  by code_simp

end
